theory Spec2Isabelle
  imports Main
begin

section \<open>The block model\<close>

text \<open>
  An output profile is an array of output blocks. A block's \<open>type\<close> is one of the string
  tags the interpreter of \<open>ScanProvider.scan\<close> switches on; its \<open>value\<close> is a string when
  authored, and whatever the host's \<open>eval\<close> returned once a \<open>function\<close> block is resolved.
\<close>

datatype block_type =
  KEY | TEXT | VARIABLE | SELECT_OPTION | FUNCTION | BARCODE | DELAY | RUN | HTTP | IF | ENDIF

text \<open>JavaScript values, as far as the interpreter distinguishes them (numbers are integers here).\<close>

datatype jsval = JUndefined | JNull | JBool bool | JNum int | JStr string

record block =
  btype :: block_type
  bvalue :: jsval
  blabel :: "string option"

text \<open>The \<open>variables\<close> object of one pass, in the key order of the object literal.\<close>

record variables =
  barcode :: string
  barcodes :: "string list"
  quantity :: "string option"
  timestamp :: int
  device_name :: string

section \<open>Acquisition mode\<close>

text \<open>\<open>SelectScanningModePage.SCAN_MODE_*\<close>: what the user can choose.\<close>

datatype scan_mode = SCAN_MODE_ENTER_MAUALLY | SCAN_MODE_SINGLE | SCAN_MODE_CONTINUE

text \<open>\<open>ScanProvider.acqusitionMode\<close>: how the acquisition is really performed.\<close>

datatype acq_mode = MANUAL | SINGLE | MIXED_CONTINUE | CONTINUE

text \<open>
  JavaScript truthiness of the configured continue-mode timeout (a number of seconds, or
  nothing): \<open>0\<close> and the absent value are falsy.
\<close>

definition timeout_truthy :: "int option \<Rightarrow> bool" where
  "timeout_truthy t = (case t of None \<Rightarrow> False | Some n \<Rightarrow> n \<noteq> 0)"

text \<open>
  The \<open>switch (scanMode)\<close> of \<open>scan\<close>. \<open>blockingOutputComponents\<close> is the result of
  \<open>OutputProfileModel.HasBlockingOutputComponents\<close>, \<open>android\<close> that of
  \<open>platform.is('android')\<close>.
\<close>

definition derive_acqusitionMode :: "scan_mode \<Rightarrow> bool \<Rightarrow> bool \<Rightarrow> int option \<Rightarrow> acq_mode" where
  "derive_acqusitionMode scanMode blockingOutputComponents android continueModeTimeout =
     (case scanMode of
        SCAN_MODE_ENTER_MAUALLY \<Rightarrow> MANUAL
      | SCAN_MODE_SINGLE \<Rightarrow> SINGLE
      | SCAN_MODE_CONTINUE \<Rightarrow>
          (if blockingOutputComponents \<or> \<not> android \<or> timeout_truthy continueModeTimeout
           then MIXED_CONTINUE else CONTINUE))"

section \<open>Promises\<close>

text \<open>
  What an \<open>await\<close> on a promise observes: the resolved value, the rejection reason, or
  nothing at all when no handler ever settles the promise.
\<close>

datatype ('r, 'a) settled = Resolved 'a | Rejected 'r | Unsettled

section \<open>The quantity dialog\<close>

datatype quantity_action = Press_Ok string | Press_Cancel

text \<open>
  The two button handlers of \<open>getQuantity\<close>. \<open>data\<close> is the text of the input field
  (\<open>data.quantity\<close>); the empty string is the only falsy one.
\<close>

definition quantity_handler :: "string \<Rightarrow> quantity_action \<Rightarrow> (string, string) settled" where
  "quantity_handler quantityType action =
     (case action of
        Press_Cancel \<Rightarrow> Rejected ''cancelled''
      | Press_Ok data \<Rightarrow>
          (if data \<noteq> [] then Resolved data
           else if quantityType = ''number'' then Resolved ''1''
           else Unsettled))"

section \<open>Barcode post-processing\<close>

record barcode_format =
  name :: string
  enabled :: bool

record BarcodeScanResult =
  result_text :: string
  format :: string
  cancelled :: bool

text \<open>\<open>barcodeFormats.findIndex(x => x.enabled && x.name == 'CODE_32') != -1\<close>\<close>

definition code32_enabled :: "barcode_format list \<Rightarrow> bool" where
  "code32_enabled barcodeFormats =
     (find (\<lambda>x. enabled x \<and> name x = ''CODE_32'') barcodeFormats \<noteq> None)"

text \<open>The condition of the \<open>CODE_39 fix\<close>, which both acquisition paths spell out.\<close>

definition code39_fix_applies :: "barcode_format list \<Rightarrow> BarcodeScanResult \<Rightarrow> bool" where
  "code39_fix_applies barcodeFormats r =
     (result_text r \<noteq> [] \<and> format r = ''CODE_39'' \<and> code32_enabled barcodeFormats)"

text \<open>
  The fix in the \<open>single\<close>/\<open>mixed_continue\<close> branch of \<open>getBarcode\<close>, and its copy in the
  subscription handler of the \<open>continue\<close> branch. \<open>conv\<close> is \<open>Utils.convertCode39ToCode32\<close>.
\<close>

definition code39_fix_single :: "(string \<Rightarrow> string) \<Rightarrow> barcode_format list \<Rightarrow> BarcodeScanResult \<Rightarrow> string" where
  "code39_fix_single conv barcodeFormats r =
     (if result_text r \<noteq> [] \<and> format r = ''CODE_39'' \<and> code32_enabled barcodeFormats
      then conv (result_text r) else result_text r)"

definition code39_fix_continue :: "(string \<Rightarrow> string) \<Rightarrow> barcode_format list \<Rightarrow> BarcodeScanResult \<Rightarrow> string" where
  "code39_fix_continue conv barcodeFormats r =
     (if result_text r \<noteq> [] \<and> format r = ''CODE_39'' \<and> code32_enabled barcodeFormats
      then conv (result_text r) else result_text r)"

section \<open>Host functions\<close>

type_synonym addr = nat

text \<open>
  \<open>scan.outputBlocks\<close> is an array of references to block objects; the objects live in the
  store of the state below. \<open>scan_id\<close>, \<open>scan_quantity\<close> and \<open>scan_text\<close> are the fields
  \<open>id\<close>, \<open>quantity\<close> and \<open>text\<close>.
\<close>

record ScanModel =
  scan_id :: nat
  date :: nat
  repeated :: bool
  outputBlocks :: "addr list"
  scan_quantity :: "string option"
  scan_text :: string
  displayValue :: string

text \<open>
  What the provider calls and does not define itself: the
  JavaScript host (\<open>eval\<close>, number and date formatting, \<open>Math.random\<close>, the coercion of a
  string to a number), the \<open>supplant\<close> library, and the helpers \<open>ScanModel.ToString\<close>,
  \<open>Utils.convertCode39ToCode32\<close> and \<open>Config.DEFAULT_ACQUISITION_LABEL\<close>. They are
  parameters of the model.

  \<open>host_eval code key variables\<close> is \<open>eval(code)\<close> with \<open>window[key]\<close> holding the variables:
  \<open>Inl\<close> the error it throws, \<open>Inr\<close> the value it returns. \<open>getRandomInt k\<close> is the
  \<open>k\<close>-th number drawn. \<open>string_is_one s\<close> says that the string \<open>s\<close> converts to the
  number \<open>1\<close>.
\<close>

record host =
  host_eval :: "string \<Rightarrow> string \<Rightarrow> variables \<Rightarrow> string + jsval"
  supplant :: "jsval \<Rightarrow> variables \<Rightarrow> string"
  toLocaleDateString :: "nat \<Rightarrow> string"
  toLocaleTimeString :: "nat \<Rightarrow> string"
  number_to_string :: "int \<Rightarrow> string"
  string_is_one :: "string \<Rightarrow> bool"
  getRandomInt :: "nat \<Rightarrow> nat"
  convertCode39ToCode32 :: "string \<Rightarrow> string"
  ToString :: "ScanModel \<Rightarrow> block list \<Rightarrow> string"
  DEFAULT_ACQUISITION_LABEL :: string

section \<open>The provider, its store and its surroundings\<close>

record BarcodeScannerOptions =
  showFlipCameraButton :: bool
  prompt :: string
  showTorchButton :: bool
  preferFrontCamera :: bool
  torchOn :: bool
  continuousMode :: bool
  formats :: "string option"

text \<open>What the user is shown, in order.\<close>

datatype ui_event =
  Error_alert string
  | Quantity_dialog string
  | Select_dialog "string list"
  | Add_more_dialog
  | Infinite_loop_dialog
  | Scanner_opened string
  | Keyboard_focused "string option"

text \<open>
  An awaited event of the surroundings: it arrives \<open>waited\<close> milliseconds after the
  request, with \<open>answer\<close>; \<open>rescan = Some d\<close> says that \<open>scan\<close> was invoked anew \<open>d\<close>
  milliseconds into the wait.
\<close>

datatype 'a reply = Reply (waited: nat) (rescan: "nat option") (answer: 'a)

text \<open>
  A property that \<open>evalCode\<close> defines on the global object \<open>window\<close>: an object with the
  properties \<open>'_' + key\<close> for the keys in \<open>stored_keys\<close>, holding the values that
  \<open>stored_values\<close> has for them.
\<close>

record scratch =
  stored_keys :: "string list"
  stored_values :: variables

text \<open>
  One state for everything a pass reads and writes:
  \<^item> the fields of \<open>ScanProvider\<close> (\<open>this_scanCallId\<close> is \<open>this._scanCallId\<close>, \<open>outputProfile\<close>
    the \<open>outputBlocks\<close> array of \<open>this.outputProfile\<close>);
  \<^item> the store of block objects, \<open>next_addr\<close> being the first address never allocated;
  \<^item> the variables \<open>scan\<close> declares for its closure \<open>again\<close>;
  \<^item> the observer of the invocation: whether it is stopped, and what it was handed while
    it was not;
  \<^item> the surroundings: the clock in milliseconds, the number of random draws, the
    properties that \<open>evalCode\<close> has defined on \<open>window\<close> (the last defined first), what
    was shown, and the events to come for each thing the provider can wait for.
\<close>

record state =
  this_scanCallId :: nat
  acqusitionMode :: acq_mode
  barcodeFormats :: "barcode_format list"
  deviceName :: string
  quantityType :: string
  awaitingForBarcode :: bool
  continuosScanSubscription :: bool
  pluginOptions :: BarcodeScannerOptions
  outputProfile :: "addr list"
  heap :: "addr \<Rightarrow> block"
  next_addr :: addr
  againCount :: nat
  prevScanDisplayValue :: string
  resetAgainCountTimer :: "nat option"
  completed :: bool
  received :: "ScanModel list"
  clock :: nat
  draws :: nat
  window :: "(string \<times> scratch) list"
  presented :: "ui_event list"
  scanner :: "BarcodeScanResult option reply list"
  keyboard :: "string reply list"
  quantity_prompts :: "quantity_action reply list"
  select_prompts :: "string reply list"
  add_more_prompts :: "bool reply list"
  loop_prompts :: "bool reply list"

text \<open>\<open>observer.complete()\<close>, and \<open>observer.next(scan)\<close>: a stopped subscriber drops what it is handed.\<close>

definition complete :: "state \<Rightarrow> state" where
  "complete st = st\<lparr>completed := True\<rparr>"

definition next_scan :: "ScanModel \<Rightarrow> state \<Rightarrow> state" where
  "next_scan s st = (if completed st then st else st\<lparr>received := received st @ [s]\<rparr>)"

definition present :: "ui_event \<Rightarrow> state \<Rightarrow> state" where
  "present e st = st\<lparr>presented := presented st @ [e]\<rparr>"

text \<open>
  The first statements of \<open>scan\<close>, run by a new top-level invocation at time \<open>t\<close>: the last
  observer is completed and the call id becomes the time.
\<close>

definition rescanned :: "nat \<Rightarrow> state \<Rightarrow> state" where
  "rescanned t st = (complete st)\<lparr>this_scanCallId := t\<rparr>"

text \<open>\<open>setTimeout(() => againCount = 0, 500)\<close>, once its time has come.\<close>

definition fire_timer :: "state \<Rightarrow> state" where
  "fire_timer st =
     (case resetAgainCountTimer st of
        None \<Rightarrow> st
      | Some due \<Rightarrow>
          if due \<le> clock st then st\<lparr>againCount := 0, resetAgainCountTimer := None\<rparr> else st)"

text \<open>
  The provider resumes after a wait: the clock has advanced, a timer that became due has
  run, and so has a new invocation of \<open>scan\<close>, if there was one.
\<close>

definition resume :: "'a reply \<Rightarrow> state \<Rightarrow> state" where
  "resume r st =
     (let st1 = fire_timer (st\<lparr>clock := clock st + waited r\<rparr>)
      in case rescan r of None \<Rightarrow> st1 | Some d \<Rightarrow> rescanned (clock st + d) st1)"

subsection \<open>Dialogs\<close>

text \<open>\<open>getQuantity(label)\<close>\<close>

definition getQuantity :: "string option \<Rightarrow> state \<Rightarrow> (string, string) settled \<times> state" where
  "getQuantity lbl st =
     (let title = (case lbl of None \<Rightarrow> ''Enter quantity value''
                     | Some l \<Rightarrow> if l \<noteq> [] then l else ''Enter quantity value'');
          st1 = present (Quantity_dialog title) st
      in case quantity_prompts st1 of
           [] \<Rightarrow> (Unsettled, st1)
         | r # rest \<Rightarrow>
             (let st2 = resume r (st1\<lparr>quantity_prompts := rest\<rparr>)
              in (quantity_handler (quantityType st2) (answer r), st2)))"

text \<open>\<open>csvSelectOptions.split(',')\<close>\<close>

fun split_comma :: "string \<Rightarrow> string list" where
  "split_comma [] = [[]]"
| "split_comma (c # cs) =
     (if c = CHR '','' then [] # split_comma cs
      else (case split_comma cs of [] \<Rightarrow> [[c]] | w # ws \<Rightarrow> (c # w) # ws))"

text \<open>\<open>showSelectOption(csvSelectOptions)\<close>: the only button resolves with the chosen value.\<close>

definition showSelectOption :: "string \<Rightarrow> state \<Rightarrow> string option \<times> state" where
  "showSelectOption csvSelectOptions st =
     (let st1 = present (Select_dialog (split_comma csvSelectOptions)) st
      in case select_prompts st1 of
           [] \<Rightarrow> (None, st1)
         | r # rest \<Rightarrow> (Some (answer r), resume r (st1\<lparr>select_prompts := rest\<rparr>)))"

text \<open>
  \<open>showAddMoreDialog(timeoutSeconds)\<close>: the interval ticks every second and resolves \<open>true\<close>
  at the first tick that finds the countdown at zero or below; a button pressed before that
  resolves \<open>true\<close> (Continue) or \<open>false\<close> (Stop).
\<close>

definition add_more_expiry :: "int option \<Rightarrow> nat" where
  "add_more_expiry timeoutSeconds =
     (case timeoutSeconds of
        None \<Rightarrow> 1000
      | Some n \<Rightarrow> if n \<le> 0 then 1000 else (nat n + 1) * 1000)"

definition showAddMoreDialog :: "int option \<Rightarrow> state \<Rightarrow> bool \<times> state" where
  "showAddMoreDialog timeoutSeconds st =
     (let st1 = present Add_more_dialog st; expiry = add_more_expiry timeoutSeconds
      in case add_more_prompts st1 of
           [] \<Rightarrow> (True, resume (Reply expiry None ()) st1)
         | r # rest \<Rightarrow>
             if waited r < expiry then (answer r, resume r (st1\<lparr>add_more_prompts := rest\<rparr>))
             else (True, resume (Reply expiry None ()) (st1\<lparr>add_more_prompts := rest\<rparr>)))"

text \<open>\<open>showPreventInfiniteLoopDialog()\<close>: Continue resolves \<open>true\<close>, Stop \<open>false\<close>.\<close>

definition showPreventInfiniteLoopDialog :: "state \<Rightarrow> bool option \<times> state" where
  "showPreventInfiniteLoopDialog st =
     (let st1 = present Infinite_loop_dialog st
      in case loop_prompts st1 of
           [] \<Rightarrow> (None, st1)
         | r # rest \<Rightarrow> (Some (answer r), resume r (st1\<lparr>loop_prompts := rest\<rparr>)))"

subsection \<open>Barcode acquisition\<close>

text \<open>
  \<open>getBarcode(label)\<close>. In the \<open>single\<close> and \<open>mixed_continue\<close> modes the scanner is opened
  for one result; in the \<open>continue\<close> mode the provider subscribes once and every later
  call waits for the subscription's next result; in the \<open>manual\<close> mode the text comes
  from the keyboard input, which cannot be cancelled.
\<close>

definition getBarcode_single :: "host \<Rightarrow> state \<Rightarrow> (string option, string) settled \<times> state" where
  "getBarcode_single H st =
     (let st1 = present (Scanner_opened (prompt (pluginOptions st))) st
      in case scanner st1 of
           [] \<Rightarrow> (Unsettled, st1)
         | r # rest \<Rightarrow>
             (let st2 = resume r (st1\<lparr>scanner := rest\<rparr>)
              in case answer r of
                   None \<Rightarrow> (Rejected (Some ''cancelled''), st2)
                 | Some barcodeScanResult \<Rightarrow>
                     if cancelled barcodeScanResult then (Rejected (Some ''cancelled''), st2)
                     else (Resolved (code39_fix_single (convertCode39ToCode32 H)
                                       (barcodeFormats st2) barcodeScanResult), st2)))"

definition getBarcode_continue :: "host \<Rightarrow> state \<Rightarrow> (string option, string) settled \<times> state" where
  "getBarcode_continue H st =
     (let st1 = (if continuosScanSubscription st then st
                 else (present (Scanner_opened (prompt (pluginOptions st))) st)
                        \<lparr>continuosScanSubscription := True\<rparr>)
      in case scanner st1 of
           [] \<Rightarrow> (Unsettled, st1)
         | r # rest \<Rightarrow>
             (let st2 = resume r (st1\<lparr>scanner := rest\<rparr>)
              in case answer r of
                   None \<Rightarrow> (Rejected None, st2\<lparr>continuosScanSubscription := False\<rparr>)
                 | Some barcodeScanResult \<Rightarrow>
                     if cancelled barcodeScanResult
                     then (Rejected None, st2\<lparr>continuosScanSubscription := False\<rparr>)
                     else (Resolved (code39_fix_continue (convertCode39ToCode32 H)
                                       (barcodeFormats st2) barcodeScanResult), st2)))"

definition getBarcode_manual :: "string option \<Rightarrow> state \<Rightarrow> (string option, string) settled \<times> state" where
  "getBarcode_manual lbl st =
     (let st1 = present (Keyboard_focused lbl) st
      in case keyboard st1 of
           [] \<Rightarrow> (Unsettled, st1)
         | r # rest \<Rightarrow> (Resolved (answer r), resume r (st1\<lparr>keyboard := rest\<rparr>)))"

definition getBarcode :: "host \<Rightarrow> string option \<Rightarrow> state \<Rightarrow> (string option, string) settled \<times> state" where
  "getBarcode H lbl st =
     (let st0 = st\<lparr>awaitingForBarcode := True\<rparr>;
          (p, st1) = (case acqusitionMode st0 of
                        SINGLE \<Rightarrow> getBarcode_single H st0
                      | MIXED_CONTINUE \<Rightarrow> getBarcode_single H st0
                      | CONTINUE \<Rightarrow> getBarcode_continue H st0
                      | MANUAL \<Rightarrow> getBarcode_manual lbl st0)
      in case p of
           Unsettled \<Rightarrow> (p, st1)
         | _ \<Rightarrow> (p, st1\<lparr>awaitingForBarcode := False\<rparr>))"

section \<open>Expression evaluation\<close>

text \<open>
  \<open>code.replace(new RegExp(key, 'g'), rep)\<close> for a key without special characters: every
  occurrence of the key, found from left to right and not overlapping, is replaced.
\<close>

function replace_all :: "string \<Rightarrow> string \<Rightarrow> string \<Rightarrow> string" where
  "replace_all key rep code =
     (if key = [] \<or> code = [] then code
      else if take (length key) code = key
           then rep @ replace_all key rep (drop (length key) code)
           else hd code # replace_all key rep (tl code))"
  by pat_completeness auto
termination
  by (relation "measure (\<lambda>(key, rep, code). length code)") auto

declare replace_all.simps [simp del]

text \<open>The replacement \<open>'window["' + randomInt + '"]["_' + key + '"]'\<close>.\<close>

definition window_ref :: "string \<Rightarrow> string \<Rightarrow> string" where
  "window_ref randomInt key = ''window[\"'' @ randomInt @ ''\"][\"_'' @ key @ ''\"]''"

text \<open>The \<open>forEach\<close> over \<open>Object.keys(variables)\<close>, in the order of the object literal.\<close>

definition inject_variables :: "string \<Rightarrow> string \<Rightarrow> string" where
  "inject_variables randomInt code =
     foldl (\<lambda>c key. replace_all key (window_ref randomInt key) c) code
       [''barcode'', ''barcodes'', ''quantity'', ''timestamp'', ''device_name'']"

text \<open>
  \<open>Object.defineProperty(window, key, { value: {}, writable: true })\<close>, with the object
  as it is once the \<open>forEach\<close> has filled it. The descriptor names neither \<open>configurable\<close>
  nor \<open>enumerable\<close>, which are \<open>false\<close> then: the property is created not configurable.
  A property that an earlier call has defined under the same key is writable, and takes the
  new object.
\<close>

definition defineProperty :: "string \<Rightarrow> scratch \<Rightarrow> (string \<times> scratch) list \<Rightarrow> (string \<times> scratch) list" where
  "defineProperty key obj w = (key, obj) # filter (\<lambda>e. fst e \<noteq> key) w"

text \<open>
  \<open>delete window[key]\<close>. The provider is a module and \<open>evalCode\<close> a method of a class, so
  the statement is strict code: for a property that is not configurable, as all those of
  \<open>defineProperty\<close> are, it throws a \<open>TypeError\<close> and the property stays. Where there is no
  such property it does nothing.
\<close>

definition delete_property :: "string \<Rightarrow> (string \<times> scratch) list \<Rightarrow> string + (string \<times> scratch) list" where
  "delete_property key w =
     (if key \<in> set (map fst w) then Inl ''TypeError: Cannot delete property'' else Inr w)"

text \<open>
  \<open>evalCode(code, variables)\<close>: \<open>Inr\<close> the value returned, \<open>Inl\<close> the error thrown.
  \<^item> The property \<open>window[randomInt]\<close> is defined and the \<open>forEach\<close> stores the variables
    in it and rewrites the code. A \<open>code\<close> that is not a string has no \<open>replace\<close>: the
    error is thrown in the first round of the \<open>forEach\<close>, after the first variable is
    stored and before the \<open>try\<close>.
  \<^item> \<open>try\<close>: the value of \<open>eval\<close> is to be returned. \<open>catch\<close>: an error of \<open>eval\<close> is shown
    in an alert and an \<open>Error\<close> made from it is to be thrown.
  \<^item> \<open>finally\<close>: the property is deleted. An error thrown here takes the place of the
    value that was to be returned and of the error that was to be thrown.
\<close>

definition evalCode :: "host \<Rightarrow> jsval \<Rightarrow> variables \<Rightarrow> state \<Rightarrow> (string + jsval) \<times> state" where
  "evalCode H code variables st =
     (let randomInt = number_to_string H (int (getRandomInt H (draws st)));
          st1 = st\<lparr>draws := draws st + 1\<rparr>
      in case code of
           JStr c \<Rightarrow>
             (let st2 = st1\<lparr>window := defineProperty randomInt
                          \<lparr>stored_keys = [''barcode'', ''barcodes'', ''quantity'', ''timestamp'',
                             ''device_name''],
                           stored_values = variables\<rparr> (window st1)\<rparr>;
                  (outcome, st3) =
                    (case host_eval H (inject_variables randomInt c) randomInt variables of
                       Inr v \<Rightarrow> (Inr v, st2)
                     | Inl error \<Rightarrow>
                         (Inl (''Error: '' @ error),
                          present (Error_alert
                            (''An error occurred while executing your Output template: '' @ error)) st2))
              in case delete_property randomInt (window st3) of
                   Inl type_error \<Rightarrow> (Inl type_error, st3)
                 | Inr w \<Rightarrow> (outcome, st3\<lparr>window := w\<rparr>))
         | _ \<Rightarrow>
             (Inl ''TypeError: code.replace is not a function'',
              st1\<lparr>window := defineProperty randomInt
                     \<lparr>stored_keys = [''barcode''], stored_values = variables\<rparr> (window st1)\<rparr>))"

text \<open>\<open>condition == true\<close>, the loose comparison.\<close>

definition loose_eq_true :: "host \<Rightarrow> jsval \<Rightarrow> bool" where
  "loose_eq_true H v =
     (case v of
        JBool b \<Rightarrow> b
      | JNum n \<Rightarrow> n = 1
      | JStr s \<Rightarrow> string_is_one H s
      | JNull \<Rightarrow> False
      | JUndefined \<Rightarrow> False)"

section \<open>The interpreter\<close>

subsection \<open>Arrays and the store\<close>

text \<open>\<open>array.splice(start, deleteCount)\<close> with a start inside the array or at its end.\<close>

definition splice :: "nat \<Rightarrow> nat \<Rightarrow> 'a list \<Rightarrow> 'a list" where
  "splice start deleteCount xs = take start xs @ drop (start + deleteCount) xs"

text \<open>\<open>outputBlock.value = v\<close> for the block object at address \<open>a\<close>.\<close>

definition set_value :: "addr \<Rightarrow> jsval \<Rightarrow> state \<Rightarrow> state" where
  "set_value a v st = st\<lparr>heap := (heap st)(a := (heap st a)\<lparr>bvalue := v\<rparr>)\<rparr>"

text \<open>
  \<open>JSON.parse(JSON.stringify(blocks))\<close>: a new array of new block objects with the fields of
  the old ones.
\<close>

definition clone_blocks :: "addr list \<Rightarrow> state \<Rightarrow> addr list \<times> state" where
  "clone_blocks src st =
     (let n = next_addr st; k = length src
      in ([n ..< n + k],
          st\<lparr>heap := (\<lambda>a. if n \<le> a \<and> a < n + k then heap st (src ! (a - n)) else heap st a),
             next_addr := n + k\<rparr>))"

subsection \<open>Matching endif\<close>

text \<open>
  Modelled from the spec: the source of \<open>OutputBlockModel.FindEndIfIndex\<close>, which the
  interpreter calls, is missing. The spec has it locate the matching \<open>endif\<close> "by
  forward-scanning with nesting-depth tracking (increment depth on nested If, decrement on
  EndIf, match found when depth returns to the starting level)". An \<open>if\<close> without a
  matching \<open>endif\<close> is outside what the spec describes: the answer is \<open>None\<close> then, and
  the loop stops with \<open>Unmatched_if\<close>.
\<close>

fun find_endif :: "block list \<Rightarrow> nat \<Rightarrow> nat \<Rightarrow> nat option" where
  "find_endif [] depth k = None"
| "find_endif (b # bs) depth k =
     (if btype b = IF then find_endif bs (depth + 1) (k + 1)
      else if btype b = ENDIF
           then (if depth = 0 then Some k else find_endif bs (depth - 1) (k + 1))
           else find_endif bs depth (k + 1))"

definition FindEndIfIndex :: "block list \<Rightarrow> nat \<Rightarrow> nat option" where
  "FindEndIfIndex blocks startFrom = find_endif (drop startFrom blocks) 0 startFrom"

text \<open>
  A block sequence is well nested when every \<open>endif\<close> closes an \<open>if\<close> opened before it and no
  \<open>if\<close> stays open; \<open>nested d bs\<close> says so of a sequence read with \<open>d\<close> blocks open.
\<close>

fun nested :: "nat \<Rightarrow> block list \<Rightarrow> bool" where
  "nested d [] = (d = 0)"
| "nested d (b # bs) =
     (if btype b = IF then nested (d + 1) bs
      else if btype b = ENDIF then 0 < d \<and> nested (d - 1) bs
      else nested d bs)"

definition well_nested :: "block list \<Rightarrow> bool" where
  "well_nested bs = nested 0 bs"

subsection \<open>One block\<close>

text \<open>
  The state of one pass: the scan under construction, the loop index \<open>i\<close> and the
  \<open>variables\<close> object.
\<close>

record pass =
  scan :: ScanModel
  idx :: nat
  vars :: variables

text \<open>
  What \<open>scan\<close> fixes for its closure \<open>again\<close>: the call id it captured, the configured
  timeout and the name of the scan session.
\<close>

record invocation =
  scanCallId :: nat
  continueModeTimeout :: "int option"
  scanSession_name :: string

text \<open>
  How the body of the loop ends for one block: it goes on to the next iteration; it
  completes the observer and returns from \<open>again\<close> (at one of four places); it waits for
  something that never comes; or it meets an \<open>if\<close> without \<open>endif\<close>.
\<close>

datatype return_site = Quantity_rejected | Barcode_superseded | Barcode_rejected | Condition_threw

datatype flow = Proceed | Return return_site | Suspended | Unmatched_if

type_synonym step = "flow \<times> pass \<times> state"

text \<open>The \<open>variable\<close> block: \<open>switch (outputBlock.value)\<close>.\<close>

definition exec_variable :: "host \<Rightarrow> invocation \<Rightarrow> addr \<Rightarrow> pass \<Rightarrow> state \<Rightarrow> step" where
  "exec_variable H call a p st =
     (let outputBlock = heap st a; v = bvalue outputBlock; d = date (scan p)
      in if v = JStr ''deviceName'' then (Proceed, p, set_value a (JStr (deviceName st)) st)
         else if v = JStr ''timestamp''
           then (Proceed, p, set_value a (JStr (number_to_string H (int d * 1000))) st)
         else if v = JStr ''date'' then (Proceed, p, set_value a (JStr (toLocaleDateString H d)) st)
         else if v = JStr ''time'' then (Proceed, p, set_value a (JStr (toLocaleTimeString H d)) st)
         else if v = JStr ''date_time''
           then (Proceed, p,
                 set_value a (JStr (toLocaleTimeString H d @ '' '' @ toLocaleDateString H d)) st)
         else if v = JStr ''scan_session_name''
           then (Proceed, p, set_value a (JStr (scanSession_name call)) st)
         else if v = JStr ''quantity''
           then (case getQuantity (blabel outputBlock) st of
                   (Resolved q, st1) \<Rightarrow>
                     (Proceed,
                      p\<lparr>vars := (vars p)\<lparr>quantity := Some q\<rparr>,
                        scan := (scan p)\<lparr>scan_quantity := Some q\<rparr>\<rparr>,
                      set_value a (JStr q) st1)
                 | (Rejected err, st1) \<Rightarrow> (Return Quantity_rejected, p, complete st1)
                 | (Unsettled, st1) \<Rightarrow> (Suspended, p, st1))
         else (Proceed, p, st))"

text \<open>The \<open>select_option\<close> block: interpolation, then the dialog.\<close>

definition exec_select_option :: "host \<Rightarrow> addr \<Rightarrow> pass \<Rightarrow> state \<Rightarrow> step" where
  "exec_select_option H a p st =
     (let csv = supplant H (bvalue (heap st a)) (vars p);
          st1 = set_value a (JStr csv) st
      in case showSelectOption csv st1 of
           (Some chosen, st2) \<Rightarrow> (Proceed, p, set_value a (JStr chosen) st2)
         | (None, st2) \<Rightarrow> (Suspended, p, st2))"

text \<open>The \<open>function\<close> block: an error of the evaluation is caught and leaves the empty string.\<close>

definition exec_function :: "host \<Rightarrow> addr \<Rightarrow> pass \<Rightarrow> state \<Rightarrow> step" where
  "exec_function H a p st =
     (case evalCode H (bvalue (heap st a)) (vars p) st of
        (Inr v, st1) \<Rightarrow> (Proceed, p, set_value a v st1)
      | (Inl error, st1) \<Rightarrow> (Proceed, p, set_value a (JStr []) st1))"

text \<open>
  The \<open>barcode\<close> block. After the wait the call id is compared with the provider's; the
  case then falls through to \<open>delay\<close>, which only breaks.
\<close>

definition exec_barcode :: "host \<Rightarrow> invocation \<Rightarrow> addr \<Rightarrow> pass \<Rightarrow> state \<Rightarrow> step" where
  "exec_barcode H call a p st =
     (case getBarcode H (blabel (heap st a)) st of
        (Resolved b, st1) \<Rightarrow>
          if scanCallId call \<noteq> this_scanCallId st1 then (Return Barcode_superseded, p, complete st1)
          else (Proceed,
                p\<lparr>vars := (vars p)\<lparr>barcode := b, barcodes := barcodes (vars p) @ [b]\<rparr>\<rparr>,
                set_value a (JStr b) st1)
      | (Rejected err, st1) \<Rightarrow> (Return Barcode_rejected, p, complete st1)
      | (Unsettled, st1) \<Rightarrow> (Suspended, p, st1))"

text \<open>The \<open>run\<close> and \<open>http\<close> blocks: interpolation.\<close>

definition exec_interpolate :: "host \<Rightarrow> addr \<Rightarrow> pass \<Rightarrow> state \<Rightarrow> step" where
  "exec_interpolate H a p st =
     (Proceed, p, set_value a (JStr (supplant H (bvalue (heap st a)) (vars p))) st)"

text \<open>
  The \<open>if\<close> block once its condition is known. The index \<open>i\<close> points to the \<open>if\<close>; the
  search for the \<open>endif\<close> starts at \<open>i + 1\<close>. The array is spliced, and the index is left
  where it is (the source decrements it to make up for the increment of the \<open>for\<close>).
\<close>

definition if_splice :: "host \<Rightarrow> jsval \<Rightarrow> pass \<Rightarrow> state \<Rightarrow> step" where
  "if_splice H condition p st =
     (let i = idx p; blocks = outputBlocks (scan p)
      in case FindEndIfIndex (map (heap st) blocks) (i + 1) of
           None \<Rightarrow> (Unmatched_if, p, st)
         | Some endIfIndex \<Rightarrow>
             if loose_eq_true H condition
             then (Proceed,
                   p\<lparr>scan := (scan p)\<lparr>outputBlocks :=
                        splice (endIfIndex - 1) 1 (splice i 1 blocks)\<rparr>\<rparr>, st)
             else (Proceed,
                   p\<lparr>scan := (scan p)\<lparr>outputBlocks :=
                        splice i (endIfIndex - i + 1) blocks\<rparr>\<rparr>, st))"

text \<open>
  The \<open>if\<close> block: the condition is evaluated; an error of the evaluation completes the
  observer and returns from \<open>again\<close>.
\<close>

definition exec_if :: "host \<Rightarrow> addr \<Rightarrow> pass \<Rightarrow> state \<Rightarrow> step" where
  "exec_if H a p st =
     (case evalCode H (bvalue (heap st a)) (vars p) st of
        (Inl error, st1) \<Rightarrow> (Return Condition_threw, p, complete st1)
      | (Inr condition, st1) \<Rightarrow> if_splice H condition p st1)"

text \<open>The increment of the \<open>for\<close>, for a block that lets the loop go on.\<close>

definition increment :: "step \<Rightarrow> step" where
  "increment s = (case s of (Proceed, p, st) \<Rightarrow> (Proceed, p\<lparr>idx := idx p + 1\<rparr>, st) | _ \<Rightarrow> s)"

text \<open>
  The first statement of the loop body: the prompt of the next acquisition is the block's
  label, or the default label when the block has none (or an empty one).
\<close>

definition set_prompt :: "host \<Rightarrow> block \<Rightarrow> state \<Rightarrow> state" where
  "set_prompt H outputBlock st =
     st\<lparr>pluginOptions := (pluginOptions st)\<lparr>prompt :=
          (case blabel outputBlock of
             None \<Rightarrow> DEFAULT_ACQUISITION_LABEL H
           | Some l \<Rightarrow> if l \<noteq> [] then l else DEFAULT_ACQUISITION_LABEL H)\<rparr>\<rparr>"

text \<open>
  One iteration of \<open>for (let i = 0; i < scan.outputBlocks.length; i++)\<close>, for an index
  inside the array: the prompt is set, then the block is dispatched on its type.
\<close>

definition exec_block :: "host \<Rightarrow> invocation \<Rightarrow> pass \<Rightarrow> state \<Rightarrow> step" where
  "exec_block H call p st =
     (let a = outputBlocks (scan p) ! idx p;
          outputBlock = heap st a;
          st0 = set_prompt H outputBlock st
      in case btype outputBlock of
           KEY \<Rightarrow> increment (Proceed, p, st0)
         | TEXT \<Rightarrow> increment (Proceed, p, st0)
         | VARIABLE \<Rightarrow> increment (exec_variable H call a p st0)
         | SELECT_OPTION \<Rightarrow> increment (exec_select_option H a p st0)
         | FUNCTION \<Rightarrow> increment (exec_function H a p st0)
         | BARCODE \<Rightarrow> increment (exec_barcode H call a p st0)
         | DELAY \<Rightarrow> increment (Proceed, p, st0)
         | RUN \<Rightarrow> increment (exec_interpolate H a p st0)
         | HTTP \<Rightarrow> increment (exec_interpolate H a p st0)
         | IF \<Rightarrow> exec_if H a p st0
         | ENDIF \<Rightarrow> increment (Proceed, p, st0))"

subsection \<open>The loop\<close>

lemma length_splice: "length (splice s c xs) = min s (length xs) + (length xs - (s + c))"
  by (simp add: splice_def)

lemma exec_variable_blocks:
  "exec_variable H call a p st = (f, p', st') \<Longrightarrow>
     outputBlocks (scan p') = outputBlocks (scan p) \<and> idx p' = idx p"
  by (auto simp: exec_variable_def Let_def split: if_splits prod.splits settled.splits)

lemma exec_select_option_blocks:
  "exec_select_option H a p st = (f, p', st') \<Longrightarrow>
     outputBlocks (scan p') = outputBlocks (scan p) \<and> idx p' = idx p"
  by (auto simp: exec_select_option_def Let_def split: prod.splits option.splits)

lemma exec_function_blocks:
  "exec_function H a p st = (f, p', st') \<Longrightarrow>
     outputBlocks (scan p') = outputBlocks (scan p) \<and> idx p' = idx p"
  by (auto simp: exec_function_def split: prod.splits sum.splits)

lemma exec_barcode_blocks:
  "exec_barcode H call a p st = (f, p', st') \<Longrightarrow>
     outputBlocks (scan p') = outputBlocks (scan p) \<and> idx p' = idx p"
  by (auto simp: exec_barcode_def split: prod.splits settled.splits if_splits)

lemma exec_interpolate_blocks:
  "exec_interpolate H a p st = (f, p', st') \<Longrightarrow>
     outputBlocks (scan p') = outputBlocks (scan p) \<and> idx p' = idx p"
  by (auto simp: exec_interpolate_def)

lemma exec_if_blocks:
  "exec_if H a p st = (Proceed, p', st') \<Longrightarrow> idx p < length (outputBlocks (scan p)) \<Longrightarrow>
     length (outputBlocks (scan p')) < length (outputBlocks (scan p)) \<and> idx p' = idx p"
  by (auto simp: exec_if_def if_splice_def Let_def length_splice
      split: prod.splits sum.splits option.splits if_splits)

lemma increment_Proceed:
  "increment s = (Proceed, p', st') \<Longrightarrow>
     \<exists>p0. s = (Proceed, p0, st') \<and> p' = p0\<lparr>idx := idx p0 + 1\<rparr>"
  by (auto simp: increment_def split: prod.splits flow.splits)

lemma exec_block_measure:
  assumes "idx p < length (outputBlocks (scan p))"
    and "exec_block H call p st = (Proceed, p', st')"
  shows "length (outputBlocks (scan p')) - idx p' < length (outputBlocks (scan p)) - idx p"
  using assms
  unfolding exec_block_def Let_def
  by (auto split: block_type.splits dest!: increment_Proceed
      dest: exec_variable_blocks exec_select_option_blocks exec_function_blocks
        exec_barcode_blocks exec_interpolate_blocks exec_if_blocks)

text \<open>
  \<open>for (let i = 0; i < scan.outputBlocks.length; i++)\<close>, from the index of the pass state
  on. \<open>Proceed\<close> in the result says that the loop ran to its end.
\<close>

function run :: "host \<Rightarrow> invocation \<Rightarrow> pass \<Rightarrow> state \<Rightarrow> step" where
  "run H call p st =
     (if idx p < length (outputBlocks (scan p))
      then (case exec_block H call p st of
              (f, p', st') \<Rightarrow> if f = Proceed then run H call p' st' else (f, p', st'))
      else (Proceed, p, st))"
  by pat_completeness auto
termination
  by (relation "measure (\<lambda>(H, call, p, st). length (outputBlocks (scan p)) - idx p)")
    (auto dest: exec_block_measure [OF _ sym])

declare run.simps [simp del]

text \<open>
  \<open>reaches H call p st p' st'\<close>: the loop, being in the pass state \<open>p\<close> and the state
  \<open>st\<close>, comes to \<open>p'\<close> and \<open>st'\<close> after some iterations.
\<close>

inductive reaches :: "host \<Rightarrow> invocation \<Rightarrow> pass \<Rightarrow> state \<Rightarrow> pass \<Rightarrow> state \<Rightarrow> bool"
  for H :: host and call :: invocation where
  here: "reaches H call p st p st"
| after: "idx p < length (outputBlocks (scan p)) \<Longrightarrow> exec_block H call p st = (Proceed, p1, st1)
     \<Longrightarrow> reaches H call p1 st1 p' st' \<Longrightarrow> reaches H call p st p' st'"

text \<open>The same, as a function: the pass state and the state after \<open>n\<close> iterations that go on.\<close>

fun advance :: "nat \<Rightarrow> host \<Rightarrow> invocation \<Rightarrow> pass \<Rightarrow> state \<Rightarrow> (pass \<times> state) option" where
  "advance 0 H call p st = Some (p, st)"
| "advance (Suc n) H call p st =
     (if idx p < length (outputBlocks (scan p))
      then (case exec_block H call p st of
              (f, p1, st1) \<Rightarrow> if f = Proceed then advance n H call p1 st1 else None)
      else None)"

section \<open>The scan loop\<close>

subsection \<open>The result of a pass\<close>

text \<open>\<open>x != ''\<close>, the loose comparison, and the text \<open>join\<close> gives an element.\<close>

definition loose_ne_empty :: "jsval \<Rightarrow> bool" where
  "loose_ne_empty v =
     (case v of
        JStr s \<Rightarrow> s \<noteq> []
      | JNum n \<Rightarrow> n \<noteq> 0
      | JBool b \<Rightarrow> b
      | JNull \<Rightarrow> True
      | JUndefined \<Rightarrow> True)"

definition join_item :: "host \<Rightarrow> jsval \<Rightarrow> string" where
  "join_item H v =
     (case v of
        JStr s \<Rightarrow> s
      | JNum n \<Rightarrow> number_to_string H n
      | JBool b \<Rightarrow> (if b then ''true'' else ''false'')
      | JNull \<Rightarrow> []
      | JUndefined \<Rightarrow> [])"

fun join_with :: "string \<Rightarrow> string list \<Rightarrow> string" where
  "join_with sep [] = []"
| "join_with sep [x] = x"
| "join_with sep (x # y # zs) = x @ sep @ join_with sep (y # zs)"

text \<open>\<open>scan.text\<close>: the values of the barcode blocks, the empty ones left out, joined by a space.\<close>

definition legacy_text :: "host \<Rightarrow> block list \<Rightarrow> string" where
  "legacy_text H blocks =
     join_with '' ''
       (map (join_item H)
          (filter loose_ne_empty
             (map (\<lambda>outputBlock. if btype outputBlock = BARCODE then bvalue outputBlock else JStr [])
                blocks)))"

subsection \<open>The infinite-loop guard\<close>

text \<open>
  The statements under \<open>prevent infinite loops\<close>, at the end of a pass whose display value is
  \<open>dv\<close>: the count goes up when the value repeats, the value is remembered, and the timer
  that zeroes the count is set anew, 500 milliseconds from now.
\<close>

definition update_againCount :: "string \<Rightarrow> state \<Rightarrow> state" where
  "update_againCount dv st =
     (let st1 = (if dv = prevScanDisplayValue st then st\<lparr>againCount := againCount st + 1\<rparr> else st)
      in st1\<lparr>prevScanDisplayValue := dv, resetAgainCountTimer := Some (clock st + 500)\<rparr>)"

subsection \<open>again\<close>

text \<open>
  How one call of \<open>again\<close> ends: it calls \<open>again\<close> anew; it has completed the observer; it
  waits for something that never comes; or the pass met an \<open>if\<close> without \<open>endif\<close>.
\<close>

datatype ending = Repeat | Completed | Waiting | Unmatched

text \<open>The end of a pass whose loop ran through: the scan is handed out, then the mode decides.\<close>

definition finish_pass :: "host \<Rightarrow> invocation \<Rightarrow> ScanModel \<Rightarrow> state \<Rightarrow> ending \<times> state" where
  "finish_pass H call s st =
     (let blocks = map (heap st) (outputBlocks s);
          s1 = s\<lparr>scan_text := legacy_text H blocks\<rparr>;
          s2 = s1\<lparr>displayValue := ToString H s1 blocks\<rparr>;
          st1 = update_againCount (displayValue s2) st;
          st2 = next_scan s2 st1
      in case acqusitionMode st2 of
           CONTINUE \<Rightarrow> (Repeat, st2)
         | MIXED_CONTINUE \<Rightarrow>
             (case showAddMoreDialog (continueModeTimeout call) st2 of
                (addMore, st3) \<Rightarrow> if addMore then (Repeat, st3) else (Completed, complete st3))
         | MANUAL \<Rightarrow> (Repeat, st2)
         | SINGLE \<Rightarrow> (Completed, complete st2))"

text \<open>The start of a pass: the profile is cloned and the variables are set up.\<close>

definition begin_pass :: "state \<Rightarrow> pass \<times> state" where
  "begin_pass st =
     (let now = clock st;
          (copy, st1) = clone_blocks (outputProfile st) st;
          s = \<lparr>scan_id = now, date = now, repeated = False, outputBlocks = copy,
               scan_quantity = None, scan_text = [], displayValue = []\<rparr>;
          variables = \<lparr>barcode = [], barcodes = [], quantity = None,
                       timestamp = int now * 1000, device_name = deviceName st1\<rparr>
      in (\<lparr>scan = s, idx = 0, vars = variables\<rparr>, st1))"

text \<open>A pass: the loop runs over the clone; only a loop that ran through hands out a scan.\<close>

definition run_pass :: "host \<Rightarrow> invocation \<Rightarrow> state \<Rightarrow> ending \<times> state" where
  "run_pass H call st =
     (case begin_pass st of
        (p0, st1) \<Rightarrow>
          (case run H call p0 st1 of
             (Proceed, p, st2) \<Rightarrow> finish_pass H call (scan p) st2
           | (Return site, p, st2) \<Rightarrow> (Completed, st2)
           | (Suspended, p, st2) \<Rightarrow> (Waiting, st2)
           | (Unmatched_if, p, st2) \<Rightarrow> (Unmatched, st2)))"

text \<open>
  One call of \<open>again\<close>: the call id is checked, then the count of repeated passes, then the
  pass runs.
\<close>

definition again_body :: "host \<Rightarrow> invocation \<Rightarrow> state \<Rightarrow> ending \<times> state" where
  "again_body H call st =
     (if scanCallId call \<noteq> this_scanCallId st then (Completed, complete st)
      else if againCount st > 30
        then (case showPreventInfiniteLoopDialog st of
                (None, st1) \<Rightarrow> (Waiting, st1)
              | (Some wantToContinue, st1) \<Rightarrow>
                  if \<not> wantToContinue then (Completed, complete st1) else run_pass H call st1)
        else run_pass H call st)"

text \<open>
  \<open>again\<close> calls itself for as long as the mode and the user have it; \<open>fuel\<close> bounds the
  number of calls the model follows, and \<open>None\<close> says that it was used up.
\<close>

fun again :: "nat \<Rightarrow> host \<Rightarrow> invocation \<Rightarrow> state \<Rightarrow> ending option \<times> state" where
  "again 0 H call st = (None, st)"
| "again (Suc fuel) H call st =
     (case again_body H call st of
        (Repeat, st') \<Rightarrow> again fuel H call st'
      | (e, st') \<Rightarrow> (Some e, st'))"

section \<open>The older draft\<close>

text \<open>
  \<open>acquireScan\<close> is an earlier draft of \<open>scan\<close>. It asks the scanner plugin for its
  continuous mode where \<open>scan\<close> derives the acquisition mode \<open>continue\<close>
  (\<open>quantityEnabled\<close> is the result of \<open>OutputProfileModel.HasQuantityBlocks\<close>).
\<close>

definition pluginContinuousMode :: "scan_mode \<Rightarrow> bool \<Rightarrow> bool \<Rightarrow> int option \<Rightarrow> bool" where
  "pluginContinuousMode mode quantityEnabled android timeout =
     (if quantityEnabled \<or> \<not> android \<or> timeout_truthy timeout then False
      else mode = SCAN_MODE_CONTINUE)"

text \<open>
  Its \<open>if\<close> case, for a condition that was evaluated: only the value \<open>false\<close> splices, the
  number of blocks removed is the index of the \<open>endif\<close>, and the loop goes on with the next
  index. \<open>blocks\<close> are the block objects of the \<open>array\<close> of their addresses; the result
  is the array and the next index (\<open>None\<close> for an \<open>if\<close> without \<open>endif\<close>).
\<close>

definition acquireScan_if :: "jsval \<Rightarrow> block list \<Rightarrow> addr list \<Rightarrow> nat \<Rightarrow> (addr list \<times> nat) option" where
  "acquireScan_if condition blocks array i =
     (if condition = JBool False
      then (case FindEndIfIndex blocks (i + 1) of
              None \<Rightarrow> None
            | Some endIfIndex \<Rightarrow> Some (splice i endIfIndex array, i + 1))
      else Some (array, i + 1))"

section \<open>How the store changes\<close>

text \<open>
  \<open>writes_only a st st'\<close>: from \<open>st\<close> to \<open>st'\<close> the store changed at most in the value of the
  block at \<open>a\<close>; no block was allocated, and the profile is the array it was.
\<close>

definition writes_only :: "addr \<Rightarrow> state \<Rightarrow> state \<Rightarrow> bool" where
  "writes_only a st st' \<longleftrightarrow>
     next_addr st' = next_addr st \<and> outputProfile st' = outputProfile st
     \<and> (\<forall>x. x \<noteq> a \<longrightarrow> heap st' x = heap st x)
     \<and> (\<forall>x. btype (heap st' x) = btype (heap st x))"



section \<open>A concrete host and a concrete state\<close>

text \<open>
  An instance of the parameters, for running the model: a host whose \<open>eval\<close> knows the
  expressions \<open>true\<close>, \<open>false\<close> and \<open>barcode == '123'\<close> (as rewritten by
  \<open>inject_variables\<close>) and throws on everything else, and a provider whose profile is a given
  list of blocks, stored at the addresses \<open>0, 1, ...\<close>.
\<close>

definition example_eval :: "string \<Rightarrow> string \<Rightarrow> variables \<Rightarrow> string + jsval" where
  "example_eval code key vs =
     (if code = ''true'' then Inr (JBool True)
      else if code = ''false'' then Inr (JBool False)
      else if code = window_ref key ''barcode'' @ '' == '123' ''
        then Inr (JBool (barcode vs = ''123''))
      else Inl ''SyntaxError'')"

definition example_render :: "jsval \<Rightarrow> string" where
  "example_render v =
     (case v of JStr s \<Rightarrow> s | JBool b \<Rightarrow> (if b then ''true'' else ''false'') | _ \<Rightarrow> [])"

definition example_host :: host where
  "example_host =
     \<lparr>host_eval = example_eval,
      supplant = (\<lambda>v vs. example_render v),
      toLocaleDateString = (\<lambda>d. ''1/1/1970''),
      toLocaleTimeString = (\<lambda>d. ''12:00:00 AM''),
      number_to_string = (\<lambda>n. if n = 4 then ''4'' else ''0''),
      string_is_one = (\<lambda>s. s = ''1''),
      getRandomInt = (\<lambda>k. 4),
      convertCode39ToCode32 = (\<lambda>s. CHR ''A'' # s),
      ToString = (\<lambda>s blocks. join_with '' '' (map (\<lambda>b. example_render (bvalue b)) blocks)),
      DEFAULT_ACQUISITION_LABEL = ''Place a barcode inside the scan area.''\<rparr>"

definition example_state :: "block list \<Rightarrow> state" where
  "example_state blocks =
     \<lparr>this_scanCallId = 100,
      acqusitionMode = SINGLE,
      barcodeFormats = [],
      deviceName = ''phone'',
      quantityType = ''number'',
      awaitingForBarcode = False,
      continuosScanSubscription = False,
      pluginOptions = \<lparr>showFlipCameraButton = True, prompt = [], showTorchButton = True,
        preferFrontCamera = False, torchOn = False, continuousMode = False, formats = None\<rparr>,
      outputProfile = [0 ..< length blocks],
      heap = (\<lambda>a. if a < length blocks then blocks ! a
                   else \<lparr>btype = TEXT, bvalue = JStr [], blabel = None\<rparr>),
      next_addr = length blocks,
      againCount = 0,
      prevScanDisplayValue = [],
      resetAgainCountTimer = None,
      completed = False,
      received = [],
      clock = 100,
      draws = 0,
      window = [],
      presented = [],
      scanner = [],
      keyboard = [],
      quantity_prompts = [],
      select_prompts = [],
      add_more_prompts = [],
      loop_prompts = []\<rparr>"

definition example_call :: invocation where
  "example_call = \<lparr>scanCallId = 100, continueModeTimeout = None, scanSession_name = ''session''\<rparr>"

definition blk :: "block_type \<Rightarrow> string \<Rightarrow> block" where
  "blk t v = \<lparr>btype = t, bvalue = JStr v, blabel = None\<rparr>"

text \<open>A profile with a quantity block in the middle, and a user who cancels the dialog.\<close>

definition quantity_profile :: "block list" where
  "quantity_profile = [blk TEXT ''L1'', blk VARIABLE ''quantity'', blk TEXT ''L2'']"

definition cancelling_state :: state where
  "cancelling_state = (example_state quantity_profile)\<lparr>quantity_prompts := [Reply 50 None Press_Cancel]\<rparr>"

text \<open>A provider about to ask for a quantity, and one about to read a barcode.\<close>

definition asking_state :: "string \<Rightarrow> quantity_action \<Rightarrow> state" where
  "asking_state qt action =
     (example_state [])\<lparr>quantityType := qt, quantity_prompts := [Reply 50 None action]\<rparr>"

definition code32_formats :: "barcode_format list" where
  "code32_formats = [\<lparr>name = ''QR_CODE'', enabled = True\<rparr>, \<lparr>name = ''CODE_32'', enabled = True\<rparr>]"

definition scanning_state :: "acq_mode \<Rightarrow> string \<Rightarrow> string \<Rightarrow> state" where
  "scanning_state m t f =
     (example_state [])\<lparr>acqusitionMode := m, barcodeFormats := code32_formats,
        scanner := [Reply 50 None (Some \<lparr>result_text = t, format = f, cancelled = False\<rparr>)]\<rparr>"

text \<open>Profiles with an expression that the host cannot evaluate.\<close>

definition failing_if_state :: state where
  "failing_if_state =
     example_state [blk TEXT ''L1'', blk IF ''oops'', blk TEXT ''L2'', blk ENDIF []]"

definition failing_function_state :: state where
  "failing_function_state = example_state [blk FUNCTION ''oops'', blk TEXT ''L2'']"



text \<open>
  A provider whose passes repeat the display value \<open>x\<close> in the \<open>continue\<close> mode, with a user
  who answers the dialog within 100 milliseconds; and states for the count and its timer.
\<close>

definition looping_state :: state where
  "looping_state =
     (example_state [blk TEXT ''x''])
       \<lparr>acqusitionMode := CONTINUE, againCount := 31, prevScanDisplayValue := ''x'',
        loop_prompts := [Reply 100 None True, Reply 100 None True]\<rparr>"

definition counting_state :: state where
  "counting_state = (example_state [])\<lparr>againCount := 5, prevScanDisplayValue := ''a''\<rparr>"

definition timed_state :: state where
  "timed_state = (example_state [])\<lparr>againCount := 7, resetAgainCountTimer := Some 600\<rparr>"

definition stopping_state :: state where
  "stopping_state = looping_state\<lparr>loop_prompts := [Reply 100 None False]\<rparr>"

text \<open>
  A profile with a condition on the barcode, a provider about to read the barcode \<open>t\<close>, and
  its pass when the loop has come to the \<open>if\<close>.
\<close>

definition if_profile :: "block list" where
  "if_profile = [blk TEXT ''L1'', blk BARCODE [], blk IF ''barcode == '123' '',
     blk TEXT ''MATCH'', blk ENDIF []]"

definition reading_state :: "string \<Rightarrow> state" where
  "reading_state t =
     (example_state if_profile)
       \<lparr>scanner := [Reply 50 None (Some \<lparr>result_text = t, format = ''QR_CODE'', cancelled = False\<rparr>)]\<rparr>"

definition at_if :: "string \<Rightarrow> pass \<times> state" where
  "at_if t = the (advance (Suc (Suc 0)) example_host example_call
     (fst (begin_pass (reading_state t))) (snd (begin_pass (reading_state t))))"

text \<open>
  A host whose \<open>eval\<close> throws on every text and names the text in its error, and whose
  \<open>k\<close>-th random number is \<open>k\<close>; and the variables of a pass that has read the barcode
  \<open>123\<close>.
\<close>

definition quoting_host :: host where
  "quoting_host =
     example_host\<lparr>host_eval := (\<lambda>code key vs. Inl (''SyntaxError: '' @ code)),
       getRandomInt := (\<lambda>k. k),
       number_to_string := (\<lambda>n. if n = 0 then ''0'' else ''1'')\<rparr>"

definition example_variables :: variables where
  "example_variables =
     \<lparr>barcode = ''123'', barcodes = [''123''], quantity = None, timestamp = 0,
      device_name = ''phone''\<rparr>"

section \<open>Auxiliary facts\<close>

lemmas world_defs = resume_def fire_timer_def rescanned_def complete_def present_def

lemma resume_frame [simp]:
  "heap (resume r st) = heap st"
  "next_addr (resume r st) = next_addr st"
  "outputProfile (resume r st) = outputProfile st"
  "received (resume r st) = received st"
  "quantityType (resume r st) = quantityType st"
  "barcodeFormats (resume r st) = barcodeFormats st"
  "acqusitionMode (resume r st) = acqusitionMode st"
  "presented (resume r st) = presented st"
  "deviceName (resume r st) = deviceName st"
  "scanner (resume r st) = scanner st"
  "keyboard (resume r st) = keyboard st"
  "quantity_prompts (resume r st) = quantity_prompts st"
  "select_prompts (resume r st) = select_prompts st"
  by (simp_all add: world_defs Let_def split: option.splits)

lemma reaches_run: "reaches H call p st p' st' \<Longrightarrow> run H call p st = run H call p' st'"
  by (induction rule: reaches.induct) (simp_all add: run.simps [of _ _ p st for p st])

lemma advance_reaches:
  "advance n H call p st = Some (p', st') \<Longrightarrow> reaches H call p st p' st'"
proof (induction n arbitrary: p st)
  case 0
  then show ?case by (simp add: reaches.here)
next
  case (Suc n)
  then show ?case
    by (auto split: if_splits prod.splits intro: reaches.after)
qed

text \<open>Nothing but the end of a pass hands a scan to the observer.\<close>

lemma getQuantity_received: "getQuantity l st = (r, st') \<Longrightarrow> received st' = received st"
  by (auto simp: getQuantity_def Let_def present_def split: list.splits)

lemma showSelectOption_received: "showSelectOption c st = (r, st') \<Longrightarrow> received st' = received st"
  by (auto simp: showSelectOption_def Let_def present_def split: list.splits)

lemma getBarcode_received: "getBarcode H l st = (r, st') \<Longrightarrow> received st' = received st"
  by (cases "acqusitionMode st")
    (auto simp: getBarcode_def getBarcode_single_def getBarcode_continue_def getBarcode_manual_def
      Let_def present_def split: list.splits option.splits if_splits settled.splits)

text \<open>The property that \<open>evalCode\<close> has just defined cannot be deleted.\<close>

lemma delete_defined [simp]:
  "delete_property key (defineProperty key obj w) = Inl ''TypeError: Cannot delete property''"
  by (simp add: delete_property_def defineProperty_def)

lemma window_present [simp]: "window (present e st) = window st"
  by (simp add: present_def)

lemma evalCode_string:
  "evalCode H (JStr c) v st =
     (Inl ''TypeError: Cannot delete property'',
      (case host_eval H (inject_variables (number_to_string H (int (getRandomInt H (draws st)))) c)
              (number_to_string H (int (getRandomInt H (draws st)))) v of
         Inr x \<Rightarrow> id
       | Inl error \<Rightarrow>
           present (Error_alert (''An error occurred while executing your Output template: '' @ error)))
        (st\<lparr>draws := draws st + 1,
            window := defineProperty (number_to_string H (int (getRandomInt H (draws st))))
              \<lparr>stored_keys = [''barcode'', ''barcodes'', ''quantity'', ''timestamp'', ''device_name''],
               stored_values = v\<rparr> (window st)\<rparr>))"
  by (simp add: evalCode_def Let_def split: sum.splits)

lemma evalCode_received: "evalCode H c v st = (r, st') \<Longrightarrow> received st' = received st"
  by (cases c) (auto simp: evalCode_string present_def evalCode_def Let_def split: sum.splits)

lemma exec_variable_received:
  "exec_variable H call a p st = (f, p', st') \<Longrightarrow> received st' = received st"
  by (auto simp: exec_variable_def Let_def set_value_def complete_def
      split: if_splits prod.splits settled.splits dest: getQuantity_received)

lemma exec_select_option_received:
  "exec_select_option H a p st = (f, p', st') \<Longrightarrow> received st' = received st"
  by (auto simp: exec_select_option_def Let_def set_value_def
      split: prod.splits option.splits dest: showSelectOption_received)

lemma exec_function_received:
  "exec_function H a p st = (f, p', st') \<Longrightarrow> received st' = received st"
  by (auto simp: exec_function_def set_value_def split: prod.splits sum.splits
      dest: evalCode_received)

lemma exec_barcode_received:
  "exec_barcode H call a p st = (f, p', st') \<Longrightarrow> received st' = received st"
  by (auto simp: exec_barcode_def set_value_def complete_def
      split: prod.splits settled.splits if_splits dest: getBarcode_received)

lemma exec_interpolate_received:
  "exec_interpolate H a p st = (f, p', st') \<Longrightarrow> received st' = received st"
  by (auto simp: exec_interpolate_def set_value_def)

lemma exec_if_received:
  "exec_if H a p st = (f, p', st') \<Longrightarrow> received st' = received st"
  by (auto simp: exec_if_def if_splice_def Let_def complete_def
      split: prod.splits sum.splits option.splits if_splits dest: evalCode_received)

lemma increment_state: "increment s = (f, p', st') \<Longrightarrow> \<exists>p0. s = (f, p0, st')"
  by (auto simp: increment_def split: prod.splits flow.splits)

lemma exec_block_received:
  "exec_block H call p st = (f, p', st') \<Longrightarrow> received st' = received st"
  unfolding exec_block_def Let_def
  by (auto split: block_type.splits dest!: increment_state
      dest: exec_variable_received exec_select_option_received exec_function_received
        exec_barcode_received exec_interpolate_received exec_if_received
      simp: set_prompt_def)

lemma run_received: "run H call p st = (f, p', st') \<Longrightarrow> received st' = received st"
proof (induction H call p st rule: run.induct)
  case (1 H call p st)
  show ?case
  proof (cases "idx p < length (outputBlocks (scan p))")
    case False
    with "1.prems" show ?thesis by (simp add: run.simps)
  next
    case True
    obtain g p1 st1 where e: "exec_block H call p st = (g, p1, st1)"
      by (cases "exec_block H call p st") auto
    have r1: "received st1 = received st" using e by (rule exec_block_received)
    show ?thesis
    proof (cases "g = Proceed")
      case True
      with \<open>idx p < length (outputBlocks (scan p))\<close> e "1.prems"
      have "run H call p1 st1 = (f, p', st')" by (simp add: run.simps [of H call p st])
      with "1.IH" [OF \<open>idx p < length (outputBlocks (scan p))\<close> e [symmetric] refl True] r1
      show ?thesis by simp
    next
      case False
      with \<open>idx p < length (outputBlocks (scan p))\<close> e "1.prems" r1
      show ?thesis by (simp add: run.simps [of H call p st])
    qed
  qed
qed


lemma begin_pass_received [simp]: "received (snd (begin_pass st)) = received st"
  by (simp add: begin_pass_def clone_blocks_def Let_def)

lemma run_pass_returns:
  assumes "reaches H call (fst (begin_pass st)) (snd (begin_pass st)) p st1"
    and "run H call p st1 = (Return site, p', st')"
  shows "run_pass H call st = (Completed, st') \<and> received st' = received st"
proof -
  have r: "run H call (fst (begin_pass st)) (snd (begin_pass st)) = (Return site, p', st')"
    using reaches_run [OF assms(1)] assms(2) by simp
  have "received st' = received (snd (begin_pass st))"
    using r by (rule run_received)
  moreover have "run_pass H call st = (Completed, st')"
    using r by (simp add: run_pass_def case_prod_beta)
  ultimately show ?thesis by simp
qed

lemma again_runs_pass:
  assumes "scanCallId call = this_scanCallId st" and "againCount st \<le> 30"
    and "run_pass H call st = (Completed, st')"
  shows "again (Suc n) H call st = (Some Completed, st')"
  using assms by (simp add: again_body_def)

lemma run_stops:
  assumes "idx p < length (outputBlocks (scan p))"
    and "exec_block H call p st = (f, p', st')" and "f \<noteq> Proceed"
  shows "run H call p st = (f, p', st')"
  using assms by (simp add: run.simps [of H call p st])

lemma advance_the:
  "\<not> Option.is_none (advance n H call p st) \<Longrightarrow>
     reaches H call p st (fst (the (advance n H call p st))) (snd (the (advance n H call p st)))"
  by (rule advance_reaches) (auto simp: Option.is_none_def)

lemma code32_enabled_iff:
  "code32_enabled fmts \<longleftrightarrow> (\<exists>x \<in> set fmts. enabled x \<and> name x = ''CODE_32'')"
  by (auto simp: code32_enabled_def find_None_iff)

lemma set_prompt_frame [simp]:
  "heap (set_prompt H b st) = heap st"
  "next_addr (set_prompt H b st) = next_addr st"
  "outputProfile (set_prompt H b st) = outputProfile st"
  "received (set_prompt H b st) = received st"
  "completed (set_prompt H b st) = completed st"
  "presented (set_prompt H b st) = presented st"
  "draws (set_prompt H b st) = draws st"
  "this_scanCallId (set_prompt H b st) = this_scanCallId st"
  "scanner (set_prompt H b st) = scanner st"
  "keyboard (set_prompt H b st) = keyboard st"
  "quantity_prompts (set_prompt H b st) = quantity_prompts st"
  "select_prompts (set_prompt H b st) = select_prompts st"
  "quantityType (set_prompt H b st) = quantityType st"
  "acqusitionMode (set_prompt H b st) = acqusitionMode st"
  "barcodeFormats (set_prompt H b st) = barcodeFormats st"
  by (simp_all add: set_prompt_def)

lemma evalCode_throws:
  assumes "c = JStr code"
    and "host_eval H (inject_variables (number_to_string H (int (getRandomInt H (draws st)))) code)
           (number_to_string H (int (getRandomInt H (draws st)))) v = Inl err"
  shows "evalCode H c v st =
     (Inl ''TypeError: Cannot delete property'',
      present (Error_alert (''An error occurred while executing your Output template: '' @ err))
        (st\<lparr>draws := draws st + 1,
            window := defineProperty (number_to_string H (int (getRandomInt H (draws st))))
              \<lparr>stored_keys = [''barcode'', ''barcodes'', ''quantity'', ''timestamp'', ''device_name''],
               stored_values = v\<rparr> (window st)\<rparr>))"
  using assms by (simp add: evalCode_string)

text \<open>
  \<open>evalCode\<close> never returns a value: whatever \<open>eval\<close> does, the \<open>finally\<close> clause throws.
  When \<open>eval\<close> returns a value, nothing is shown.
\<close>

lemma evalCode_never_returns: "\<exists>error. fst (evalCode H c v st) = Inl error"
  by (cases c) (simp_all add: evalCode_string, simp_all add: evalCode_def Let_def)

lemma evalCode_quiet:
  assumes "c = JStr code"
    and "host_eval H (inject_variables (number_to_string H (int (getRandomInt H (draws st)))) code)
           (number_to_string H (int (getRandomInt H (draws st)))) v = Inr x"
  shows "fst (evalCode H c v st) = Inl ''TypeError: Cannot delete property''
     \<and> presented (snd (evalCode H c v st)) = presented st"
  using assms by (simp add: evalCode_string)




lemma evalCode_store:
  "evalCode H c v st = (r, st') \<Longrightarrow>
     heap st' = heap st \<and> next_addr st' = next_addr st \<and> outputProfile st' = outputProfile st"
  by (cases c) (auto simp: evalCode_string present_def evalCode_def Let_def split: sum.splits)







lemma writes_only_set_prompt [simp]:
  "writes_only a (set_prompt H b st) st' = writes_only a st st'"
  by (simp add: writes_only_def)

lemma writes_only_refl [simp]: "writes_only a st (set_prompt H b st)"
  by (simp add: writes_only_def)


text \<open>Matching \<open>if\<close> and \<open>endif\<close>.\<close>

lemma find_endif_nested:
  "nested d xs \<Longrightarrow> find_endif (xs @ rest) (d' + d) k = find_endif rest d' (k + length xs)"
proof (induction xs arbitrary: d k)
  case Nil
  then show ?case by simp
next
  case (Cons b bs)
  show ?case
  proof (cases "btype b = IF")
    case True
    with Cons.prems have "nested (d + 1) bs" by simp
    from Cons.IH [OF this, of "k + 1"] True show ?thesis by simp
  next
    case False
    show ?thesis
    proof (cases "btype b = ENDIF")
      case True
      with Cons.prems have d: "0 < d" and "nested (d - 1) bs" by simp_all
      from Cons.IH [OF this(2), of "k + 1"] True d show ?thesis by simp
    next
      case False
      with \<open>btype b \<noteq> IF\<close> Cons.prems have "nested d bs" by simp
      from Cons.IH [OF this, of "k + 1"] False \<open>btype b \<noteq> IF\<close> show ?thesis by simp
    qed
  qed
qed

lemma FindEndIfIndex_matching:
  assumes "well_nested body" and "btype e = ENDIF"
  shows "FindEndIfIndex (pre @ [a] @ body @ [e] @ post) (length pre + 1)
     = Some (length pre + 1 + length body)"
proof -
  have "nested 0 body" using assms(1) by (simp add: well_nested_def)
  from find_endif_nested [OF this, of "e # post" 0 "length pre + 1"] assms(2)
  show ?thesis by (simp add: FindEndIfIndex_def)
qed

lemma splice_markers:
  "splice (length pre + 1 + length body - 1) 1 (splice (length pre) 1 (pre @ [a] @ body @ [e] @ post))
     = pre @ body @ post"
  by (simp add: splice_def)

lemma splice_range:
  "splice (length pre) (length pre + 1 + length body - length pre + 1) (pre @ [a] @ body @ [e] @ post)
     = pre @ post"
  by (simp add: splice_def)

lemma loose_eq_true_bool [simp]: "loose_eq_true H (JBool b) = b"
  by (simp add: loose_eq_true_def)

lemma if_splice_matching:
  assumes blocks: "outputBlocks (scan p) = pre @ [a] @ body @ [e] @ post"
    and at: "idx p = length pre"
    and endif: "btype (heap st e) = ENDIF"
    and nest: "well_nested (map (heap st) body)"
  shows "if_splice H v p st =
     (Proceed, p\<lparr>scan := (scan p)\<lparr>outputBlocks :=
        (if loose_eq_true H v then pre @ body @ post else pre @ post)\<rparr>\<rparr>, st)"
proof -
  have f: "FindEndIfIndex (map (heap st) pre @ heap st a # map (heap st) body @ heap st e
        # map (heap st) post) (Suc (length pre)) = Some (Suc (length pre + length body))"
    using FindEndIfIndex_matching [of "map (heap st) body" "heap st e" "map (heap st) pre"
        "heap st a" "map (heap st) post"] nest endif
    by simp
  show ?thesis
    unfolding if_splice_def
    by (simp add: f Let_def at blocks splice_def)
qed

lemma nested_cong: "map btype xs = map btype ys \<Longrightarrow> nested d xs = nested d ys"
proof (induction xs arbitrary: ys d)
  case Nil
  then show ?case by simp
next
  case (Cons x xs)
  then obtain y ys' where ys: "ys = y # ys'" "btype x = btype y" "map btype xs = map btype ys'"
    by (cases ys) auto
  from Cons.IH [OF ys(3)] ys(1,2) show ?case by simp
qed

lemma nested_append: "nested m xs \<Longrightarrow> nested d ys \<Longrightarrow> nested (m + d) (xs @ ys)"
proof (induction xs arbitrary: m)
  case Nil
  then show ?case by simp
next
  case (Cons b bs)
  show ?case
  proof (cases "btype b = IF")
    case True
    with Cons.prems have "nested (m + 1) bs" by simp
    from Cons.IH [OF this Cons.prems(2)] True show ?thesis by simp
  next
    case False
    show ?thesis
    proof (cases "btype b = ENDIF")
      case True
      with Cons.prems have m: "0 < m" and "nested (m - 1) bs" by simp_all
      from Cons.IH [OF this(2) Cons.prems(2)] True m show ?thesis by simp
    next
      case False
      with \<open>btype b \<noteq> IF\<close> Cons.prems have "nested m bs" by simp
      from Cons.IH [OF this Cons.prems(2)] False \<open>btype b \<noteq> IF\<close> show ?thesis by simp
    qed
  qed
qed

lemma nested_close:
  "nested (Suc (d + m)) xs \<Longrightarrow>
     \<exists>body e post. xs = body @ e # post \<and> btype e = ENDIF \<and> nested m body \<and> nested d post"
proof (induction xs arbitrary: m)
  case Nil
  then show ?case by simp
next
  case (Cons b bs)
  show ?case
  proof (cases "btype b = IF")
    case True
    with Cons.prems have "nested (Suc (d + Suc m)) bs" by simp
    from Cons.IH [OF this] obtain body e post where
      "bs = body @ e # post" "btype e = ENDIF" "nested (Suc m) body" "nested d post"
      by blast
    with True have "b # bs = (b # body) @ e # post \<and> btype e = ENDIF
        \<and> nested m (b # body) \<and> nested d post"
      by simp
    then show ?thesis by blast
  next
    case notif: False
    show ?thesis
    proof (cases "btype b = ENDIF")
      case True
      with Cons.prems have rest: "nested (d + m) bs" by simp
      show ?thesis
      proof (cases m)
        case 0
        with rest True have "b # bs = [] @ b # bs \<and> btype b = ENDIF
            \<and> nested m [] \<and> nested d bs"
          by simp
        then show ?thesis by blast
      next
        case (Suc m')
        with rest have "nested (Suc (d + m')) bs" by simp
        from Cons.IH [OF this] obtain body e post where
          "bs = body @ e # post" "btype e = ENDIF" "nested m' body" "nested d post"
          by blast
        with True Suc have "b # bs = (b # body) @ e # post \<and> btype e = ENDIF
            \<and> nested m (b # body) \<and> nested d post"
          by simp
        then show ?thesis by blast
      qed
    next
      case False
      with notif Cons.prems have "nested (Suc (d + m)) bs" by simp
      from Cons.IH [OF this] obtain body e post where
        "bs = body @ e # post" "btype e = ENDIF" "nested m body" "nested d post"
        by blast
      with False notif have "b # bs = (b # body) @ e # post \<and> btype e = ENDIF
          \<and> nested m (b # body) \<and> nested d post"
        by simp
      then show ?thesis by blast
    qed
  qed
qed

lemma nested_prefix:
  "nested d (pre @ xs) \<Longrightarrow> \<exists>d'. nested d' xs \<and> (\<forall>ys. nested d' ys \<longrightarrow> nested d (pre @ ys))"
proof (induction pre arbitrary: d)
  case Nil
  then show ?case by auto
next
  case (Cons b bs)
  show ?case
  proof (cases "btype b = IF")
    case True
    with Cons.prems have "nested (d + 1) (bs @ xs)" by simp
    from Cons.IH [OF this] True show ?thesis by auto
  next
    case notif: False
    show ?thesis
    proof (cases "btype b = ENDIF")
      case True
      with Cons.prems have "0 < d" and "nested (d - 1) (bs @ xs)" by simp_all
      from Cons.IH [OF this(2)] True \<open>0 < d\<close> show ?thesis by auto
    next
      case False
      with notif Cons.prems have "nested d (bs @ xs)" by simp
      from Cons.IH [OF this] False notif show ?thesis by auto
    qed
  qed
qed

lemma nested_if_split:
  assumes "nested d (pre @ b # rest)" and "btype b = IF"
  shows "\<exists>body e post. rest = body @ e # post \<and> btype e = ENDIF \<and> nested 0 body
     \<and> nested d (pre @ body @ post) \<and> nested d (pre @ post)"
proof -
  from nested_prefix [OF assms(1)] obtain d' where
    d': "nested d' (b # rest)" and lift: "\<And>ys. nested d' ys \<Longrightarrow> nested d (pre @ ys)"
    by blast
  from d' assms(2) have "nested (Suc (d' + 0)) rest" by simp
  from nested_close [OF this] obtain body e post where
    r: "rest = body @ e # post" "btype e = ENDIF" "nested 0 body" "nested d' post"
    by blast
  from nested_append [OF r(3,4)] have "nested d' (body @ post)" by simp
  with lift r show ?thesis by blast
qed

lemma if_block_matching:
  assumes wn: "well_nested (map h blocks)" and i: "i < length blocks"
    and t: "btype (h (blocks ! i)) = IF"
  shows "\<exists>body e post. blocks = take i blocks @ [blocks ! i] @ body @ [e] @ post
     \<and> btype (h e) = ENDIF \<and> well_nested (map h body)
     \<and> well_nested (map h (take i blocks @ body @ post))
     \<and> well_nested (map h (take i blocks @ post))"
proof -
  have split: "blocks = take i blocks @ blocks ! i # drop (Suc i) blocks"
    using i by (rule id_take_nth_drop)
  have "nested 0 (map h (take i blocks) @ h (blocks ! i) # map h (drop (Suc i) blocks))"
    using wn split unfolding well_nested_def
    by (metis list.simps(9) map_append)
  from nested_if_split [OF this t] obtain body' e' post' where
    r: "map h (drop (Suc i) blocks) = body' @ e' # post'" "btype e' = ENDIF" "nested 0 body'"
      "nested 0 (map h (take i blocks) @ body' @ post')"
      "nested 0 (map h (take i blocks) @ post')"
    by blast
  from r(1) obtain body tl where
    b: "drop (Suc i) blocks = body @ tl" "map h body = body'" "map h tl = e' # post'"
    by (auto simp: map_eq_append_conv)
  from b(3) obtain e post where p: "tl = e # post" "h e = e'" "map h post = post'"
    by (auto simp: map_eq_Cons_conv)
  have "blocks = take i blocks @ [blocks ! i] @ body @ [e] @ post"
    using split b(1) p(1) by simp
  moreover have "btype (h e) = ENDIF" using r(2) p(2) by simp
  moreover have "well_nested (map h body)" using r(3) b(2) by (simp add: well_nested_def)
  moreover have "well_nested (map h (take i blocks @ body @ post))"
    using r(4) b(2) p(3) by (simp add: well_nested_def)
  moreover have "well_nested (map h (take i blocks @ post))"
    using r(5) p(3) by (simp add: well_nested_def)
  ultimately show ?thesis by blast
qed

lemma exec_block_if:
  "btype (heap st (outputBlocks (scan p) ! idx p)) = IF \<Longrightarrow>
     exec_block H call p st =
       exec_if H (outputBlocks (scan p) ! idx p) p
         (set_prompt H (heap st (outputBlocks (scan p) ! idx p)) st)"
  by (simp add: exec_block_def Let_def)


















section \<open>Properties\<close>

subsection \<open>C1\<close>

text \<open>
  C1. When the interpreter comes to an \<open>if\<close> block, a condition that is true removes the
  \<open>if\<close> and its matching \<open>endif\<close> and nothing else, a condition that is false removes
  the \<open>if\<close>, the \<open>endif\<close> and everything between them, and the loop goes on at the same
  index. The \<open>if\<close> case of \<open>scan\<close> has these splices (\<open>scan_if_splice\<close> below). The
  older draft \<open>acquireScan\<close> does not: for the blocks \<open>if\<close>, \<open>text\<close>, \<open>endif\<close>, \<open>text\<close> at the addresses 0 to 3 and the
  index 0 it keeps all four when the condition is \<open>true\<close>, and removes only the first two
  when it is \<open>false\<close>, so that the \<open>endif\<close> stays; in both cases it goes on with the
  index 1.
\<close>

theorem C1_acquireScan_if:
  "acquireScan_if (JBool True) [blk IF ''c'', blk TEXT ''a'', blk ENDIF [], blk TEXT ''b'']
      [0, 1, 2, 3] 0 = Some ([0, 1, 2, 3], 1)
   \<and> acquireScan_if (JBool False) [blk IF ''c'', blk TEXT ''a'', blk ENDIF [], blk TEXT ''b'']
      [0, 1, 2, 3] 0 = Some ([2, 3], 1)"
  by (simp add: acquireScan_if_def FindEndIfIndex_def blk_def splice_def)

text \<open>
  \<open>scan\<close>: in a well-nested block sequence an \<open>if\<close> block has a matching \<open>endif\<close>: the array
  is the blocks before the \<open>if\<close>, the \<open>if\<close>, a well-nested body, the \<open>endif\<close> and the blocks
  after it. For a condition that equals \<open>true\<close> (as the value \<open>true\<close> does), the statements
  that follow the evaluation leave the array without these two markers and nothing else
  changed; otherwise (as for the value \<open>false\<close>) they leave the array without the \<open>if\<close>, the
  body and the \<open>endif\<close>. In both cases the index stays where it was and the store is not
  written.
\<close>

theorem scan_if_splice:
  assumes wn: "well_nested (map (heap st) (outputBlocks (scan p)))"
    and inside: "idx p < length (outputBlocks (scan p))"
    and a: "a = outputBlocks (scan p) ! idx p"
    and t: "btype (heap st a) = IF"
  shows "(\<exists>pre body e post.
            outputBlocks (scan p) = pre @ [a] @ body @ [e] @ post \<and> length pre = idx p
            \<and> btype (heap st e) = ENDIF \<and> well_nested (map (heap st) body)
            \<and> well_nested (map (heap st) (pre @ body @ post))
            \<and> well_nested (map (heap st) (pre @ post)))
       \<and> (\<forall>pre body e post.
            outputBlocks (scan p) = pre @ [a] @ body @ [e] @ post \<and> length pre = idx p
            \<and> btype (heap st e) = ENDIF \<and> well_nested (map (heap st) body)
            \<longrightarrow> (loose_eq_true H v \<longrightarrow>
                    if_splice H v p st
                      = (Proceed, p\<lparr>scan := (scan p)\<lparr>outputBlocks := pre @ body @ post\<rparr>\<rparr>, st))
              \<and> (\<not> loose_eq_true H v \<longrightarrow>
                    if_splice H v p st
                      = (Proceed, p\<lparr>scan := (scan p)\<lparr>outputBlocks := pre @ post\<rparr>\<rparr>, st)))
       \<and> loose_eq_true H (JBool True) \<and> \<not> loose_eq_true H (JBool False)"
proof (intro conjI allI impI)
  from if_block_matching [OF wn inside] t a
  obtain body e post where
    "outputBlocks (scan p) = take (idx p) (outputBlocks (scan p)) @ [a] @ body @ [e] @ post"
    "btype (heap st e) = ENDIF" "well_nested (map (heap st) body)"
    "well_nested (map (heap st) (take (idx p) (outputBlocks (scan p)) @ body @ post))"
    "well_nested (map (heap st) (take (idx p) (outputBlocks (scan p)) @ post))"
    by auto
  moreover have "length (take (idx p) (outputBlocks (scan p))) = idx p"
    using inside by simp
  ultimately show "\<exists>pre body e post.
      outputBlocks (scan p) = pre @ [a] @ body @ [e] @ post \<and> length pre = idx p
      \<and> btype (heap st e) = ENDIF \<and> well_nested (map (heap st) body)
      \<and> well_nested (map (heap st) (pre @ body @ post))
      \<and> well_nested (map (heap st) (pre @ post))"
    by blast
next
  fix pre body e post
  assume d: "outputBlocks (scan p) = pre @ [a] @ body @ [e] @ post \<and> length pre = idx p
      \<and> btype (heap st e) = ENDIF \<and> well_nested (map (heap st) body)"
  from d have d1: "outputBlocks (scan p) = pre @ [a] @ body @ [e] @ post" by (rule conjunct1)
  from d have d2: "idx p = length pre" by simp
  from d have d3: "btype (heap st e) = ENDIF" by (elim conjE)
  from d have d4: "well_nested (map (heap st) body)" by (elim conjE)
  have step: "if_splice H v p st =
     (Proceed, p\<lparr>scan := (scan p)\<lparr>outputBlocks :=
        (if loose_eq_true H v then pre @ body @ post else pre @ post)\<rparr>\<rparr>, st)"
    by (rule if_splice_matching [OF d1 d2 d3 d4])
  {
    assume "loose_eq_true H v"
    with step show "if_splice H v p st
        = (Proceed, p\<lparr>scan := (scan p)\<lparr>outputBlocks := pre @ body @ post\<rparr>\<rparr>, st)"
      by simp
  }
  {
    assume "\<not> loose_eq_true H v"
    with step show "if_splice H v p st
        = (Proceed, p\<lparr>scan := (scan p)\<lparr>outputBlocks := pre @ post\<rparr>\<rparr>, st)"
      by simp
  }
next
  show "loose_eq_true H (JBool True)" by simp
  show "\<not> loose_eq_true H (JBool False)" by simp
qed

text \<open>
  On the profile \<open>text\<close>, \<open>barcode\<close>, \<open>if\<close>, \<open>text\<close>, \<open>endif\<close>, whose working copy is at the
  addresses 5 to 9: at the \<open>if\<close> a true condition leaves the blocks 5, 6 and 8, a false one
  the blocks 5 and 6.
\<close>

theorem scan_if_splice_example:
  "outputBlocks (scan (fst (at_if ''123''))) = [5, 6, 7, 8, 9] \<and> idx (fst (at_if ''123'')) = 2
   \<and> fst (snd (if_splice example_host (JBool True) (fst (at_if ''123'')) (snd (at_if ''123''))))
       = (fst (at_if ''123''))\<lparr>scan := (scan (fst (at_if ''123'')))\<lparr>outputBlocks := [5, 6, 8]\<rparr>\<rparr>
   \<and> fst (snd (if_splice example_host (JBool False) (fst (at_if ''123'')) (snd (at_if ''123''))))
       = (fst (at_if ''123''))\<lparr>scan := (scan (fst (at_if ''123'')))\<lparr>outputBlocks := [5, 6]\<rparr>\<rparr>"
proof -
  let ?H = example_host and ?p = "fst (at_if ''123'')" and ?st = "snd (at_if ''123'')"
  have wn: "well_nested (map (heap ?st) (outputBlocks (scan ?p)))" by code_simp
  have inside: "idx ?p < length (outputBlocks (scan ?p))" by code_simp
  have t: "btype (heap ?st (outputBlocks (scan ?p) ! idx ?p)) = IF" by code_simp
  have d: "outputBlocks (scan ?p) = [5, 6] @ [outputBlocks (scan ?p) ! idx ?p] @ [8] @ [9] @ []"
    "length [5, 6 :: nat] = idx ?p"
    "btype (heap ?st 9) = ENDIF"
    "well_nested (map (heap ?st) [8])"
    by code_simp+
  have 1: "outputBlocks (scan ?p) = [5, 6, 7, 8, 9]" "idx ?p = 2"
    by code_simp+
  from scan_if_splice [OF wn inside refl t, of ?H "JBool True", THEN conjunct2, THEN conjunct1,
      rule_format, of "[5, 6]" "[8]" 9 "[]"] d
  have 2: "fst (snd (if_splice ?H (JBool True) ?p ?st))
       = ?p\<lparr>scan := (scan ?p)\<lparr>outputBlocks := [5, 6, 8]\<rparr>\<rparr>"
    by simp
  from scan_if_splice [OF wn inside refl t, of ?H "JBool False", THEN conjunct2, THEN conjunct1,
      rule_format, of "[5, 6]" "[8]" 9 "[]"] d
  have 3: "fst (snd (if_splice ?H (JBool False) ?p ?st))
       = ?p\<lparr>scan := (scan ?p)\<lparr>outputBlocks := [5, 6]\<rparr>\<rparr>"
    by simp
  from 1 2 3 show ?thesis by blast
qed

text \<open>
  \<open>scan\<close> never comes to these splices: its \<open>evalCode\<close> throws whatever the condition is,
  so every \<open>if\<close> block ends the pass, and the observer is completed without a scan. So it
  is for the barcode \<open>123\<close> and the condition \<open>barcode == '123'\<close>, where nothing is shown
  but the scanner.
\<close>

theorem scan_if_stops:
  assumes inside: "idx p < length (outputBlocks (scan p))"
    and t: "btype (heap st (outputBlocks (scan p) ! idx p)) = IF"
  shows "\<exists>st'. exec_block H call p st = (Return Condition_threw, p, st')
     \<and> run H call p st = (Return Condition_threw, p, st')
     \<and> completed st' \<and> received st' = received st \<and> heap st' = heap st"
proof -
  let ?a = "outputBlocks (scan p) ! idx p"
  let ?st0 = "set_prompt H (heap st ?a) st"
  obtain r st1 where ev: "evalCode H (bvalue (heap st ?a)) (vars p) ?st0 = (r, st1)"
    by (cases "evalCode H (bvalue (heap st ?a)) (vars p) ?st0") auto
  from evalCode_never_returns [of H "bvalue (heap st ?a)" "vars p" ?st0] ev
  obtain error where r: "r = Inl error" by auto
  have e: "exec_block H call p st = (Return Condition_threw, p, complete st1)"
    using t ev r by (simp add: exec_block_if exec_if_def)
  have "run H call p st = (Return Condition_threw, p, complete st1)"
    using inside e by (rule run_stops) simp
  moreover have "received st1 = received st" using evalCode_received [OF ev] by simp
  moreover have "heap st1 = heap st" using evalCode_store [OF ev] by simp
  ultimately show ?thesis using e by (simp add: complete_def)
qed

theorem scan_if_stops_example:
  "fst (again (Suc 0) example_host example_call (reading_state ''123'')) = Some Completed
   \<and> received (snd (again (Suc 0) example_host example_call (reading_state ''123''))) = []
   \<and> presented (snd (again (Suc 0) example_host example_call (reading_state ''123'')))
       = [Scanner_opened ''Place a barcode inside the scan area.'']"
  by code_simp

subsection \<open>C2\<close>

text \<open>
  C2, as amended. At the end of a pass the repeat count goes up by one when the display
  value equals that of the pass before, and stays as it is when the value differs; the
  value is remembered and the timer is set to 500 milliseconds from then. A wait that ends
  at or after the timer's time leaves the count at zero, a shorter one leaves it alone.
  A call of \<open>again\<close> that finds the count above 30 shows the confirmation dialog before it
  does anything else, each time; with the answer Stop the observer is completed and
  receives nothing more.
\<close>

theorem C2_loop_guard:
  "againCount (update_againCount dv st)
     = (if dv = prevScanDisplayValue st then againCount st + 1 else againCount st)
   \<and> prevScanDisplayValue (update_againCount dv st) = dv
   \<and> resetAgainCountTimer (update_againCount dv st) = Some (clock st + 500)
   \<and> (acqusitionMode st \<noteq> MIXED_CONTINUE \<longrightarrow>
        againCount (snd (finish_pass H call s st))
          = (if ToString H (s\<lparr>scan_text := legacy_text H (map (heap st) (outputBlocks s))\<rparr>)
                  (map (heap st) (outputBlocks s)) = prevScanDisplayValue st
             then againCount st + 1 else againCount st))
   \<and> (resetAgainCountTimer st = Some due \<and> due \<le> clock st + waited r
        \<longrightarrow> againCount (resume r st) = 0)
   \<and> (resetAgainCountTimer st = Some due \<and> clock st + waited r < due
        \<longrightarrow> againCount (resume r st) = againCount st)
   \<and> (scanCallId call = this_scanCallId st \<and> againCount st \<le> 30
        \<longrightarrow> again_body H call st = run_pass H call st)
   \<and> (scanCallId call = this_scanCallId st \<and> 30 < againCount st \<longrightarrow>
        presented (snd (showPreventInfiniteLoopDialog st)) = presented st @ [Infinite_loop_dialog]
        \<and> again_body H call st =
            (case fst (showPreventInfiniteLoopDialog st) of
               None \<Rightarrow> (Waiting, snd (showPreventInfiniteLoopDialog st))
             | Some wantToContinue \<Rightarrow>
                 if wantToContinue then run_pass H call (snd (showPreventInfiniteLoopDialog st))
                 else (Completed, complete (snd (showPreventInfiniteLoopDialog st)))))
   \<and> (scanCallId call = this_scanCallId st \<and> 30 < againCount st
        \<and> loop_prompts st = q # rest \<and> \<not> answer q \<longrightarrow>
        fst (again (Suc n) H call st) = Some Completed
        \<and> completed (snd (again (Suc n) H call st))
        \<and> received (snd (again (Suc n) H call st)) = received st)"
proof -
  have 1: "againCount (update_againCount dv st)
     = (if dv = prevScanDisplayValue st then againCount st + 1 else againCount st)
   \<and> prevScanDisplayValue (update_againCount dv st) = dv
   \<and> resetAgainCountTimer (update_againCount dv st) = Some (clock st + 500)"
    by (simp add: update_againCount_def Let_def)
  have 2: "againCount (snd (finish_pass H call s st))
          = (if ToString H (s\<lparr>scan_text := legacy_text H (map (heap st) (outputBlocks s))\<rparr>)
                  (map (heap st) (outputBlocks s)) = prevScanDisplayValue st
             then againCount st + 1 else againCount st)"
    if "acqusitionMode st \<noteq> MIXED_CONTINUE"
    using that
    by (cases "acqusitionMode st")
      (simp_all add: finish_pass_def Let_def update_againCount_def next_scan_def complete_def)
  have 3: "againCount (resume r st) = 0"
    if "resetAgainCountTimer st = Some due" "due \<le> clock st + waited r"
    using that by (simp add: world_defs Let_def split: option.splits)
  have 4: "againCount (resume r st) = againCount st"
    if "resetAgainCountTimer st = Some due" "clock st + waited r < due"
    using that by (simp add: world_defs Let_def split: option.splits)
  have 5: "again_body H call st = run_pass H call st"
    if "scanCallId call = this_scanCallId st" "againCount st \<le> 30"
    using that by (simp add: again_body_def)
  have 6: "presented (snd (showPreventInfiniteLoopDialog st)) = presented st @ [Infinite_loop_dialog]"
    by (simp add: showPreventInfiniteLoopDialog_def Let_def present_def split: list.splits)
  have 7: "again_body H call st =
            (case fst (showPreventInfiniteLoopDialog st) of
               None \<Rightarrow> (Waiting, snd (showPreventInfiniteLoopDialog st))
             | Some wantToContinue \<Rightarrow>
                 if wantToContinue then run_pass H call (snd (showPreventInfiniteLoopDialog st))
                 else (Completed, complete (snd (showPreventInfiniteLoopDialog st))))"
    if "scanCallId call = this_scanCallId st" "30 < againCount st"
    using that by (simp add: again_body_def case_prod_beta split: option.splits)
  have 8: "fst (again (Suc n) H call st) = Some Completed
        \<and> completed (snd (again (Suc n) H call st))
        \<and> received (snd (again (Suc n) H call st)) = received st"
    if "scanCallId call = this_scanCallId st" "30 < againCount st"
      "loop_prompts st = q # rest" "\<not> answer q"
    using that
    by (simp add: again_body_def showPreventInfiniteLoopDialog_def Let_def present_def complete_def)
  from 1 2 3 4 5 6 7 8 show ?thesis by blast
qed

theorem C2_loop_guard_witness:
  "againCount (update_againCount ''a'' counting_state) = 6
   \<and> againCount (resume (Reply 500 None ()) timed_state) = 0
   \<and> againCount (resume (Reply 499 None ()) timed_state) = 7
   \<and> fst (again (Suc 0) example_host example_call stopping_state) = Some Completed
   \<and> completed (snd (again (Suc 0) example_host example_call stopping_state))
   \<and> received (snd (again (Suc 0) example_host example_call stopping_state)) = []"
proof -
  have c: "prevScanDisplayValue counting_state = ''a''" "againCount counting_state = 5"
    by code_simp+
  have t: "resetAgainCountTimer timed_state = Some 600" "clock timed_state = 100"
    "againCount timed_state = 7"
    by code_simp+
  have s: "scanCallId example_call = this_scanCallId stopping_state"
    "30 < againCount stopping_state" "loop_prompts stopping_state = [Reply 100 None False]"
    "received stopping_state = []"
    by code_simp+
  have 1: "againCount (update_againCount ''a'' counting_state) = 6"
    using C2_loop_guard [where dv = "''a''" and st = counting_state, THEN conjunct1] c by simp
  have 2: "againCount (resume (Reply 500 None ()) timed_state) = 0"
    using C2_loop_guard [where st = timed_state and due = 600 and r = "Reply 500 None ()",
        THEN conjunct2, THEN conjunct2, THEN conjunct2, THEN conjunct2, THEN conjunct1] t
    by simp
  have 3: "againCount (resume (Reply 499 None ()) timed_state) = 7"
    using C2_loop_guard [where st = timed_state and due = 600 and r = "Reply 499 None ()",
        THEN conjunct2, THEN conjunct2, THEN conjunct2, THEN conjunct2, THEN conjunct2, THEN conjunct1] t
    by simp
  have 4: "fst (again (Suc 0) example_host example_call stopping_state) = Some Completed
     \<and> completed (snd (again (Suc 0) example_host example_call stopping_state))
     \<and> received (snd (again (Suc 0) example_host example_call stopping_state)) = []"
    using C2_loop_guard [where st = stopping_state and H = example_host and call = example_call
        and q = "Reply 100 None False" and rest = "[]" and n = 0,
        THEN conjunct2, THEN conjunct2, THEN conjunct2, THEN conjunct2, THEN conjunct2, THEN conjunct2, THEN conjunct2, THEN conjunct2] s
    by simp
  from 1 2 3 4 show ?thesis by simp
qed

text \<open>
  C2 as stated fails twice. A display value that differs from the one before leaves the
  count where it was (here at 5). And with the count above 30 the dialog is shown at the
  start of every pass: twice in two passes while the count goes from 31 to 33.
\<close>

theorem C2_loop_guard_counterexample:
  "prevScanDisplayValue counting_state \<noteq> ''b''
   \<and> againCount counting_state = 5
   \<and> againCount (update_againCount ''b'' counting_state) = 5
   \<and> againCount looping_state = 31
   \<and> presented (snd (again (Suc (Suc 0)) example_host example_call looping_state))
       = [Infinite_loop_dialog, Infinite_loop_dialog]
   \<and> againCount (snd (again (Suc (Suc 0)) example_host example_call looping_state)) = 33"
  by code_simp

subsection \<open>C3\<close>

text \<open>
  C3. The acquisition mode selector: \<open>manual\<close> gives manual, \<open>single\<close> gives single, and
  \<open>continue\<close> gives the pure continuous mode exactly when there is no blocking component,
  the platform is Android and no timeout is configured; otherwise it gives
  \<open>mixed_continue\<close>. The result is a function of these four inputs. The older draft
  asks the plugin for its continuous mode in exactly the case that gives \<open>continue\<close>.
\<close>

theorem C3_mode_selector:
  "derive_acqusitionMode SCAN_MODE_ENTER_MAUALLY b a t = MANUAL
   \<and> derive_acqusitionMode SCAN_MODE_SINGLE b a t = SINGLE
   \<and> (derive_acqusitionMode SCAN_MODE_CONTINUE b a t = CONTINUE
        \<longleftrightarrow> \<not> b \<and> a \<and> \<not> timeout_truthy t)
   \<and> (derive_acqusitionMode SCAN_MODE_CONTINUE b a t = MIXED_CONTINUE
        \<longleftrightarrow> b \<or> \<not> a \<or> timeout_truthy t)
   \<and> (pluginContinuousMode m b a t \<longleftrightarrow> derive_acqusitionMode m b a t = CONTINUE)"
  by (cases m) (simp_all add: derive_acqusitionMode_def pluginContinuousMode_def)

theorem C3_mode_selector_witness:
  "derive_acqusitionMode SCAN_MODE_CONTINUE False True None = CONTINUE
   \<and> derive_acqusitionMode SCAN_MODE_CONTINUE True True None = MIXED_CONTINUE
   \<and> derive_acqusitionMode SCAN_MODE_CONTINUE False False None = MIXED_CONTINUE
   \<and> derive_acqusitionMode SCAN_MODE_CONTINUE False True (Some 5) = MIXED_CONTINUE
   \<and> derive_acqusitionMode SCAN_MODE_CONTINUE False True (Some 0) = CONTINUE"
  using C3_mode_selector [of False True None SCAN_MODE_CONTINUE]
    C3_mode_selector [of True True None SCAN_MODE_CONTINUE]
    C3_mode_selector [of False False None SCAN_MODE_CONTINUE]
    C3_mode_selector [of False True "Some 5" SCAN_MODE_CONTINUE]
    C3_mode_selector [of False True "Some 0" SCAN_MODE_CONTINUE]
  by (simp add: timeout_truthy_def)

subsection \<open>C4\<close>




subsection \<open>C5\<close>

text \<open>
  C5, as amended. When \<open>eval\<close> throws on the expression of a block: for an \<open>if\<close> block the
  loop returns at once, the error has been shown in an alert, the observer is completed
  and has received nothing from this pass; for a \<open>function\<close> block the error has been
  shown in the same alert, the block's value becomes the empty string and the loop goes
  on with the next block.
\<close>

theorem C5_evaluation_failure:
  assumes reach: "reaches H call (fst (begin_pass st)) (snd (begin_pass st)) p st1"
    and inside: "idx p < length (outputBlocks (scan p))"
    and a: "a = outputBlocks (scan p) ! idx p"
    and code: "bvalue (heap st1 a) = JStr code"
    and key: "key = number_to_string H (int (getRandomInt H (draws st1)))"
    and throws: "host_eval H (inject_variables key code) key (vars p) = Inl err"
    and alert: "alert = Error_alert (''An error occurred while executing your Output template: '' @ err)"
  shows "(btype (heap st1 a) = IF \<longrightarrow>
            (\<exists>st'. run H call p st1 = (Return Condition_threw, p, st')
               \<and> presented st' = presented st1 @ [alert] \<and> heap st' = heap st1
               \<and> run_pass H call st = (Completed, st')
               \<and> (scanCallId call = this_scanCallId st \<and> againCount st \<le> 30
                     \<longrightarrow> again (Suc n) H call st = (Some Completed, st'))
               \<and> completed st' \<and> received st' = received st))
       \<and> (btype (heap st1 a) = FUNCTION \<longrightarrow>
            (\<exists>st'. exec_block H call p st1 = (Proceed, p\<lparr>idx := idx p + 1\<rparr>, st')
               \<and> presented st' = presented st1 @ [alert]
               \<and> heap st' = (heap st1)(a := (heap st1 a)\<lparr>bvalue := JStr []\<rparr>)
               \<and> completed st' = completed st1 \<and> received st' = received st1))"
proof (intro conjI impI)
  let ?st0 = "set_prompt H (heap st1 a) st1"
  let ?st2 = "present alert (?st0\<lparr>draws := draws ?st0 + 1,
      window := defineProperty (number_to_string H (int (getRandomInt H (draws ?st0))))
        \<lparr>stored_keys = [''barcode'', ''barcodes'', ''quantity'', ''timestamp'', ''device_name''],
         stored_values = vars p\<rparr> (window ?st0)\<rparr>)"
  have ev: "evalCode H (bvalue (heap st1 a)) (vars p) ?st0 =
     (Inl ''TypeError: Cannot delete property'', ?st2)"
    unfolding alert by (rule evalCode_throws [OF code]) (use throws key in simp)
  {
    assume t: "btype (heap st1 a) = IF"
    let ?st' = "complete ?st2"
    have e: "exec_block H call p st1 = (Return Condition_threw, p, ?st')"
      using t ev a by (simp add: exec_block_def Let_def exec_if_def)
    have r: "run H call p st1 = (Return Condition_threw, p, ?st')"
      using inside e by (rule run_stops) simp
    from run_pass_returns [OF reach r] r again_runs_pass [of call st H ?st' n]
    show "\<exists>st'. run H call p st1 = (Return Condition_threw, p, st')
               \<and> presented st' = presented st1 @ [alert] \<and> heap st' = heap st1
               \<and> run_pass H call st = (Completed, st')
               \<and> (scanCallId call = this_scanCallId st \<and> againCount st \<le> 30
                     \<longrightarrow> again (Suc n) H call st = (Some Completed, st'))
               \<and> completed st' \<and> received st' = received st"
      by (auto simp: complete_def present_def set_prompt_def)
  }
  {
    assume t: "btype (heap st1 a) = FUNCTION"
    let ?st' = "set_value a (JStr []) ?st2"
    have e: "exec_block H call p st1 = (Proceed, p\<lparr>idx := idx p + 1\<rparr>, ?st')"
      using t ev a by (simp add: exec_block_def Let_def exec_function_def increment_def)
    then show "\<exists>st'. exec_block H call p st1 = (Proceed, p\<lparr>idx := idx p + 1\<rparr>, st')
               \<and> presented st' = presented st1 @ [alert]
               \<and> heap st' = (heap st1)(a := (heap st1 a)\<lparr>bvalue := JStr []\<rparr>)
               \<and> completed st' = completed st1 \<and> received st' = received st1"
      by (auto simp: set_value_def present_def set_prompt_def)
  }
qed

theorem C5_evaluation_failure_witness:
  "fst (again (Suc 0) example_host example_call failing_if_state) = Some Completed
   \<and> received (snd (again (Suc 0) example_host example_call failing_if_state)) = []
   \<and> presented (snd (again (Suc 0) example_host example_call failing_if_state))
       = [Error_alert ''An error occurred while executing your Output template: SyntaxError'']
   \<and> fst (exec_block example_host example_call (fst (begin_pass failing_function_state))
         (snd (begin_pass failing_function_state))) = Proceed
   \<and> presented (snd (snd (exec_block example_host example_call
         (fst (begin_pass failing_function_state)) (snd (begin_pass failing_function_state)))))
       = [Error_alert ''An error occurred while executing your Output template: SyntaxError'']"
proof -
  let ?H = example_host and ?c = example_call
  let ?alert = "Error_alert (''An error occurred while executing your Output template: '' @ ''SyntaxError'')"
  have one: "fst (again (Suc 0) ?H ?c failing_if_state) = Some Completed
     \<and> received (snd (again (Suc 0) ?H ?c failing_if_state)) = []
     \<and> presented (snd (again (Suc 0) ?H ?c failing_if_state)) = [?alert]"
  proof -
    let ?st = failing_if_state
    let ?adv = "advance (Suc 0) ?H ?c (fst (begin_pass ?st)) (snd (begin_pass ?st))"
    let ?p = "fst (the ?adv)" and ?st1 = "snd (the ?adv)"
    have h1: "scanCallId ?c = this_scanCallId ?st" by code_simp
    have h2: "againCount ?st \<le> 30" by code_simp
    have "\<not> Option.is_none ?adv" by code_simp
    then have h3: "reaches ?H ?c (fst (begin_pass ?st)) (snd (begin_pass ?st)) ?p ?st1"
      by (rule advance_the)
    have h4: "idx ?p < length (outputBlocks (scan ?p))" by code_simp
    have h5: "bvalue (heap ?st1 (outputBlocks (scan ?p) ! idx ?p)) = JStr ''oops''" by code_simp
    have h6: "host_eval ?H (inject_variables (number_to_string ?H (int (getRandomInt ?H (draws ?st1)))) ''oops'')
        (number_to_string ?H (int (getRandomInt ?H (draws ?st1)))) (vars ?p) = Inl ''SyntaxError''"
      by code_simp
    have t: "btype (heap ?st1 (outputBlocks (scan ?p) ! idx ?p)) = IF" by code_simp
    have p0: "presented ?st1 = []" by code_simp
    have r0: "received ?st = []" by code_simp
    from C5_evaluation_failure [OF h3 h4 refl h5 refl h6 refl, of 0] h1 h2 t p0 r0
    show ?thesis by auto
  qed
  have two: "fst (exec_block ?H ?c (fst (begin_pass failing_function_state))
         (snd (begin_pass failing_function_state))) = Proceed
     \<and> presented (snd (snd (exec_block ?H ?c (fst (begin_pass failing_function_state))
           (snd (begin_pass failing_function_state))))) = [?alert]"
  proof -
    let ?st = failing_function_state
    let ?p = "fst (begin_pass ?st)" and ?st1 = "snd (begin_pass ?st)"
    have h1: "scanCallId ?c = this_scanCallId ?st" by code_simp
    have h2: "againCount ?st \<le> 30" by code_simp
    have h3: "reaches ?H ?c ?p ?st1 ?p ?st1" by (rule reaches.here)
    have h4: "idx ?p < length (outputBlocks (scan ?p))" by code_simp
    have h5: "bvalue (heap ?st1 (outputBlocks (scan ?p) ! idx ?p)) = JStr ''oops''" by code_simp
    have h6: "host_eval ?H (inject_variables (number_to_string ?H (int (getRandomInt ?H (draws ?st1)))) ''oops'')
        (number_to_string ?H (int (getRandomInt ?H (draws ?st1)))) (vars ?p) = Inl ''SyntaxError''"
      by code_simp
    have t: "btype (heap ?st1 (outputBlocks (scan ?p) ! idx ?p)) = FUNCTION" by code_simp
    have p0: "presented ?st1 = []" by code_simp
    from C5_evaluation_failure [OF h3 h4 refl h5 refl h6 refl, of 0] t p0
    show ?thesis by auto
  qed
  from one two show ?thesis by simp
qed

text \<open>
  C5 as stated fails for the \<open>function\<close> block: an error of \<open>eval\<close> is not swallowed
  silently. The pass runs through and hands out its scan, and the user has been shown the
  alert.
\<close>

theorem C5_evaluation_failure_counterexample:
  "fst (again (Suc 0) example_host example_call failing_function_state) = Some Completed
   \<and> length (received (snd (again (Suc 0) example_host example_call failing_function_state))) = 1
   \<and> presented (snd (again (Suc 0) example_host example_call failing_function_state))
       = [Error_alert ''An error occurred while executing your Output template: SyntaxError'']
   \<and> presented failing_function_state = []"
  by code_simp

text \<open>
  What C5 as amended leaves open: the other way in which \<open>evalCode\<close> fails. When \<open>eval\<close>
  returns a value, the \<open>finally\<close> clause still throws, and nothing is shown: a \<open>function\<close>
  block with the expression \<open>true\<close> gets the empty string as its value, and an \<open>if\<close> block
  with the condition \<open>true\<close> ends the pass.
\<close>

theorem evalCode_cleanup_example:
  "host_eval example_host (inject_variables ''4'' ''true'') ''4''
       (vars (fst (begin_pass (example_state [blk FUNCTION ''true''])))) = Inr (JBool True)
   \<and> map (heap (snd (again (Suc 0) example_host example_call (example_state [blk FUNCTION ''true''])))) [1]
       = [blk FUNCTION []]
   \<and> length (received (snd (again (Suc 0) example_host example_call
         (example_state [blk FUNCTION ''true''])))) = 1
   \<and> presented (snd (again (Suc 0) example_host example_call (example_state [blk FUNCTION ''true''])))
       = []
   \<and> received (snd (again (Suc 0) example_host example_call
         (example_state [blk IF ''true'', blk TEXT ''a'', blk ENDIF []]))) = []
   \<and> completed (snd (again (Suc 0) example_host example_call
         (example_state [blk IF ''true'', blk TEXT ''a'', blk ENDIF []])))
   \<and> presented (snd (again (Suc 0) example_host example_call
         (example_state [blk IF ''true'', blk TEXT ''a'', blk ENDIF []]))) = []"
  by code_simp

subsection \<open>C6\<close>

text \<open>
  C6, as amended. A barcode read in any of the three scanning modes is rewritten with
  \<open>convertCode39ToCode32\<close> if and only if its text is not empty, its format is \<open>CODE_39\<close>
  and \<open>CODE_32\<close> is among the enabled formats; otherwise its text is passed on as it is.
  The one-shot path and the subscription path compute the same text.
\<close>

theorem C6_barcode_rewrite:
  assumes "scanner st = r # rest" and "answer r = Some res" and "\<not> cancelled res"
    and "acqusitionMode st \<noteq> MANUAL"
  shows "fst (getBarcode H lbl st) =
      Resolved (if code39_fix_applies (barcodeFormats st) res
                then convertCode39ToCode32 H (result_text res) else result_text res)
    \<and> (code39_fix_applies (barcodeFormats st) res \<longleftrightarrow>
         result_text res \<noteq> [] \<and> format res = ''CODE_39''
         \<and> (\<exists>x \<in> set (barcodeFormats st). enabled x \<and> name x = ''CODE_32''))
    \<and> code39_fix_continue (convertCode39ToCode32 H) (barcodeFormats st) res
        = code39_fix_single (convertCode39ToCode32 H) (barcodeFormats st) res"
  using assms
  by (cases "acqusitionMode st")
    (auto simp: getBarcode_def getBarcode_single_def getBarcode_continue_def Let_def
      present_def code39_fix_single_def code39_fix_continue_def code32_enabled_iff
      code39_fix_applies_def)

theorem C6_barcode_rewrite_witness:
  "fst (getBarcode example_host None (scanning_state SINGLE ''0123'' ''CODE_39'')) = Resolved ''A0123''
   \<and> fst (getBarcode example_host None (scanning_state CONTINUE ''0123'' ''CODE_39'')) = Resolved ''A0123''
   \<and> fst (getBarcode example_host None (scanning_state MIXED_CONTINUE ''0123'' ''EAN_13'')) = Resolved ''0123''"
proof -
  have s: "scanner (scanning_state m t f)
      = [Reply 50 None (Some \<lparr>result_text = t, format = f, cancelled = False\<rparr>)]" for m t f
    by (simp add: scanning_state_def)
  have a: "answer (Reply 50 None (Some \<lparr>result_text = t, format = f, cancelled = False\<rparr>))
      = Some \<lparr>result_text = t, format = f, cancelled = False\<rparr>" for t f
    by simp
  have c: "\<not> cancelled \<lparr>result_text = t, format = f, cancelled = False\<rparr>" for t f
    by simp
  have m: "acqusitionMode (scanning_state SINGLE t f) \<noteq> MANUAL"
    "acqusitionMode (scanning_state CONTINUE t f) \<noteq> MANUAL"
    "acqusitionMode (scanning_state MIXED_CONTINUE t f) \<noteq> MANUAL" for t f
    by (simp_all add: scanning_state_def)
  have f: "barcodeFormats (scanning_state m t f) = code32_formats" for m t f
    by (simp add: scanning_state_def)
  show ?thesis
    using C6_barcode_rewrite [OF s a c m(1), where H = example_host and lbl = None,
        of "''0123''" "''CODE_39''"]
      C6_barcode_rewrite [OF s a c m(2), where H = example_host and lbl = None,
        of "''0123''" "''CODE_39''"]
      C6_barcode_rewrite [OF s a c m(3), where H = example_host and lbl = None,
        of "''0123''" "''EAN_13''"]
    by (simp add: f code32_formats_def example_host_def)
qed

text \<open>
  C6 as stated fails for a barcode with an empty text: \<open>CODE_32\<close> is enabled and the format
  is \<open>CODE_39\<close>, but the fix does not apply and the empty text is passed on.
\<close>

theorem C6_barcode_rewrite_counterexample:
  "\<not> (code39_fix_applies code32_formats \<lparr>result_text = [], format = ''CODE_39'', cancelled = False\<rparr>
        \<longleftrightarrow> code32_enabled code32_formats
          \<and> format \<lparr>result_text = [], format = ''CODE_39'', cancelled = False\<rparr> = ''CODE_39'')
   \<and> fst (getBarcode example_host None (scanning_state SINGLE [] ''CODE_39'')) = Resolved []
   \<and> convertCode39ToCode32 example_host [] = ''A''"
  by (simp add: code39_fix_applies_def code32_enabled_def code32_formats_def getBarcode_def
      getBarcode_single_def scanning_state_def example_state_def present_def Let_def
      code39_fix_single_def example_host_def)

subsection \<open>C7\<close>

text \<open>
  C7. When a pass comes to a \<open>variable\<close> block with the value \<open>quantity\<close> and the user
  cancels the dialog, the loop returns at once from the place where the quantity is
  rejected: the pass state is what it was, no other block has run (the store and the
  other queues are untouched, the dialog is the only thing shown), the observer is
  completed, and it has received nothing from this pass.
\<close>

theorem C7_quantity_cancelled:
  assumes reach: "reaches H call (fst (begin_pass st)) (snd (begin_pass st)) p st1"
    and inside: "idx p < length (outputBlocks (scan p))"
    and var: "btype (heap st1 (outputBlocks (scan p) ! idx p)) = VARIABLE"
    and qty: "bvalue (heap st1 (outputBlocks (scan p) ! idx p)) = JStr ''quantity''"
    and prompts: "quantity_prompts st1 = r # rest" and cancel: "answer r = Press_Cancel"
  shows "\<exists>st'. run H call p st1 = (Return Quantity_rejected, p, st')
      \<and> heap st' = heap st1 \<and> scanner st' = scanner st1 \<and> keyboard st' = keyboard st1
      \<and> select_prompts st' = select_prompts st1 \<and> quantity_prompts st' = rest
      \<and> (\<exists>title. presented st' = presented st1 @ [Quantity_dialog title])
      \<and> run_pass H call st = (Completed, st')
      \<and> (scanCallId call = this_scanCallId st \<and> againCount st \<le> 30
            \<longrightarrow> again (Suc n) H call st = (Some Completed, st'))
      \<and> completed st' \<and> received st' = received st"
proof -
  let ?a = "outputBlocks (scan p) ! idx p"
  let ?st0 = "set_prompt H (heap st1 ?a) st1"
  obtain q st2 where g: "getQuantity (blabel (heap st1 ?a)) ?st0 = (q, st2)"
    by (cases "getQuantity (blabel (heap st1 ?a)) ?st0") auto
  have q: "q = Rejected ''cancelled''"
    using g prompts cancel
    by (auto simp: getQuantity_def Let_def present_def set_prompt_def quantity_handler_def)
  have st2: "heap st2 = heap st1" "scanner st2 = scanner st1" "keyboard st2 = keyboard st1"
    "select_prompts st2 = select_prompts st1" "quantity_prompts st2 = rest"
    "\<exists>title. presented st2 = presented st1 @ [Quantity_dialog title]"
    using g prompts by (auto simp: getQuantity_def Let_def present_def set_prompt_def)
  have e: "exec_block H call p st1 = (Return Quantity_rejected, p, complete st2)"
    using var qty g q
    by (simp add: exec_block_def Let_def exec_variable_def increment_def set_prompt_def)
  have r: "run H call p st1 = (Return Quantity_rejected, p, complete st2)"
    using inside e by (rule run_stops) simp
  from run_pass_returns [OF reach r] st2 r again_runs_pass [of call st H "complete st2" n]
  show ?thesis
    by (auto simp: complete_def)
qed

theorem C7_quantity_cancelled_witness:
  "fst (again (Suc 0) example_host example_call cancelling_state) = Some Completed
   \<and> received (snd (again (Suc 0) example_host example_call cancelling_state)) = []
   \<and> completed (snd (again (Suc 0) example_host example_call cancelling_state))
   \<and> presented (snd (again (Suc 0) example_host example_call cancelling_state))
       = [Quantity_dialog ''Enter quantity value'']"
proof -
  let ?st = cancelling_state
  let ?adv = "advance (Suc 0) example_host example_call (fst (begin_pass ?st)) (snd (begin_pass ?st))"
  let ?p = "fst (the ?adv)" and ?st1 = "snd (the ?adv)"
  have h1: "scanCallId example_call = this_scanCallId ?st" by code_simp
  have h2: "againCount ?st \<le> 30" by code_simp
  have "\<not> Option.is_none ?adv" by code_simp
  then have h3: "reaches example_host example_call (fst (begin_pass ?st)) (snd (begin_pass ?st)) ?p ?st1"
    by (rule advance_the)
  have h4: "idx ?p < length (outputBlocks (scan ?p))" by code_simp
  have h5: "btype (heap ?st1 (outputBlocks (scan ?p) ! idx ?p)) = VARIABLE" by code_simp
  have h6: "bvalue (heap ?st1 (outputBlocks (scan ?p) ! idx ?p)) = JStr ''quantity''" by code_simp
  have h7: "quantity_prompts ?st1 = [Reply 50 None Press_Cancel]" by code_simp
  have h8: "answer (Reply 50 None Press_Cancel) = Press_Cancel" by simp
  have p0: "presented ?st1 = []" by code_simp
  have r0: "received ?st = []" by code_simp
  from C7_quantity_cancelled [OF h3 h4 h5 h6 h7 h8, of 0] h1 h2 p0 r0
  obtain st' title where "again (Suc 0) example_host example_call ?st = (Some Completed, st')"
    and "completed st'" and "received st' = []" and pr: "presented st' = [Quantity_dialog title]"
    by auto
  moreover have "presented (snd (again (Suc 0) example_host example_call ?st))
       = [Quantity_dialog ''Enter quantity value'']" by code_simp
  ultimately show ?thesis by simp
qed

subsection \<open>C8\<close>



subsection \<open>C9\<close>

text \<open>
  C9. The evaluation of an expression is to bind its identifiers to the values of the
  variable context and to depend on the expression and the context alone. \<open>evalCode\<close> does
  not do so. It rewrites the text of the expression, one variable name after the other,
  \<open>barcode\<close> first:
  \<^item> in \<open>barcodes.length\<close> the name \<open>barcodes\<close> is no longer there when its turn comes; what
    \<open>eval\<close> is given is the reference to \<open>barcode\<close> followed by \<open>s.length\<close>, and not the
    reference to \<open>barcodes\<close>;
  \<^item> a name is rewritten wherever it occurs, also inside a string literal of the
    expression;
  \<^item> the text that \<open>eval\<close> is given holds the random number of the call: it differs from
    one draw to the next for the same expression, and so does what the user is shown when
    the error of \<open>eval\<close> names the text, the variables being the same.
\<close>

theorem C9_evalCode_context:
  "inject_variables ''4'' ''barcodes.length'' = ''window[\"4\"][\"_barcode\"]s.length''
   \<and> inject_variables ''4'' ''barcodes.length'' \<noteq> window_ref ''4'' ''barcodes'' @ ''.length''
   \<and> inject_variables ''4'' '' 'barcode' '' = '' 'window[\"4\"][\"_barcode\"]' ''
   \<and> inject_variables ''4'' ''barcode'' \<noteq> inject_variables ''7'' ''barcode''
   \<and> presented (snd (evalCode quoting_host (JStr ''barcode'') example_variables (example_state [])))
       = [Error_alert (''An error occurred while executing your Output template: ''
            @ ''SyntaxError: window[\"0\"][\"_barcode\"]'')]
   \<and> presented (snd (evalCode quoting_host (JStr ''barcode'') example_variables
         ((example_state [])\<lparr>draws := 1\<rparr>)))
       = [Error_alert (''An error occurred while executing your Output template: ''
            @ ''SyntaxError: window[\"1\"][\"_barcode\"]'')]"
  by code_simp

subsection \<open>C10\<close>

text \<open>
  C10. The quantity dialog: Ok with a value entered resolves with the value; Ok with
  nothing entered resolves with \<open>1\<close> when the quantity type is \<open>number\<close> and leaves the
  promise unsettled otherwise; Cancel rejects with \<open>cancelled\<close>.
\<close>

theorem C10_quantity_dialog:
  assumes "quantity_prompts st = r # rest"
  shows "(\<forall>d. answer r = Press_Ok d \<and> d \<noteq> [] \<longrightarrow> fst (getQuantity lbl st) = Resolved d)
    \<and> (answer r = Press_Ok [] \<and> quantityType st = ''number''
          \<longrightarrow> fst (getQuantity lbl st) = Resolved ''1'')
    \<and> (answer r = Press_Ok [] \<and> quantityType st \<noteq> ''number''
          \<longrightarrow> fst (getQuantity lbl st) = Unsettled)
    \<and> (answer r = Press_Cancel \<longrightarrow> fst (getQuantity lbl st) = Rejected ''cancelled'')"
  using assms by (simp add: getQuantity_def Let_def quantity_handler_def present_def)

theorem C10_quantity_dialog_witness:
  "fst (getQuantity None (asking_state ''number'' (Press_Ok ''12''))) = Resolved ''12''
   \<and> fst (getQuantity None (asking_state ''number'' (Press_Ok []))) = Resolved ''1''
   \<and> fst (getQuantity None (asking_state ''text'' (Press_Ok []))) = Unsettled
   \<and> fst (getQuantity None (asking_state ''text'' Press_Cancel)) = Rejected ''cancelled''"
proof -
  have q: "quantity_prompts (asking_state qt action) = [Reply 50 None action]" for qt action
    by (simp add: asking_state_def)
  have t: "quantityType (asking_state qt action) = qt" for qt action
    by (simp add: asking_state_def)
  show ?thesis
    using C10_quantity_dialog [OF q [of "''number''" "Press_Ok ''12''"], where lbl = None]
      C10_quantity_dialog [OF q [of "''number''" "Press_Ok []"], where lbl = None]
      C10_quantity_dialog [OF q [of "''text''" "Press_Ok []"], where lbl = None]
      C10_quantity_dialog [OF q [of "''text''" Press_Cancel], where lbl = None]
    by (simp add: t)
qed

end
